(* ===== verification/Prelude.thy ===== *)
theory Prelude
  imports Complex_Main "HOL-Library.Sublist"
begin

text \<open>
  Shared vocabulary of the library: Python's exceptions as a datatype, CSV cells and
  rows (the dictionaries \<open>csv.DictReader\<close> yields) as association lists, and the
  string primitives the organizer builds on: \<open>str.lower\<close>, the substring test
  \<open>needle in haystack\<close>, \<open>any(w in s for w in ws)\<close>, \<open>int(str)\<close> and \<open>str(int)\<close>.
  Python strings are modelled as byte strings; \<open>str.lower\<close> is modelled on ASCII
  letters (bytes outside \<open>A..Z\<close> are left unchanged).
\<close>

named_theorems py_defs "definitions of the Python primitives, unfolded to evaluate a concrete input"

section \<open>Exceptions, cells and rows\<close>

datatype py_error = AttributeError | KeyError | ValueError | TypeError | OSError
  | ZeroDivisionError | TimeoutException | WebDriverException

text \<open>
  A CSV cell is a string, or Python's \<open>None\<close> when \<open>csv.DictReader\<close> fills a short
  row with its \<open>restval\<close>. A row is the reader's dictionary, in column order.
\<close>

type_synonym cell = "string option"
type_synonym row = "(string \<times> cell) list"

definition row_get :: "row \<Rightarrow> string \<Rightarrow> cell \<Rightarrow> cell" where
  \<comment> \<open>\<open>row.get(k, d)\<close>\<close>
  "row_get r k d = (case map_of r k of None \<Rightarrow> d | Some v \<Rightarrow> v)"

definition row_index :: "row \<Rightarrow> string \<Rightarrow> py_error + cell" where
  \<comment> \<open>\<open>row[k]\<close>: a missing key raises \<open>KeyError\<close>\<close>
  "row_index r k = (case map_of r k of None \<Rightarrow> Inl KeyError | Some v \<Rightarrow> Inr v)"

declare row_get_def [py_defs] row_index_def [py_defs]

text \<open>
  Sequencing of code that may raise: \<open>sbind x f\<close> runs \<open>f\<close> on the value of
  \<open>x\<close> and passes an exception on unchanged.
\<close>

definition sbind :: "py_error + 'a \<Rightarrow> ('a \<Rightarrow> py_error + 'b) \<Rightarrow> py_error + 'b" where
  "sbind x f = (case x of Inl e \<Rightarrow> Inl e | Inr a \<Rightarrow> f a)"

fun smap :: "('a \<Rightarrow> py_error + 'b) \<Rightarrow> 'a list \<Rightarrow> py_error + 'b list" where
  \<comment> \<open>a loop that applies \<open>f\<close> to each element in order; the first exception ends it\<close>
  "smap f [] = Inr []"
| "smap f (x # xs) = sbind (f x) (\<lambda>y. sbind (smap f xs) (\<lambda>ys. Inr (y # ys)))"

definition raises :: "py_error + 'a \<Rightarrow> bool" where
  "raises x = (case x of Inl e \<Rightarrow> True | Inr a \<Rightarrow> False)"

text \<open>
  \<open>d[k] = f(d[k])\<close> on a dictionary kept as an association list with distinct keys:
  the entry for \<open>k\<close> is replaced by \<open>f\<close> of it; a missing key raises
  \<open>KeyError\<close>, and an exception of \<open>f\<close> is passed on.
\<close>

fun update_at :: "'k \<Rightarrow> ('v \<Rightarrow> py_error + 'v) \<Rightarrow> ('k \<times> 'v) list \<Rightarrow> py_error + ('k \<times> 'v) list" where
  "update_at k f [] = Inl KeyError"
| "update_at k f ((k', v) # kvs) =
     (if k = k' then sbind (f v) (\<lambda>v'. Inr ((k', v') # kvs))
      else sbind (update_at k f kvs) (\<lambda>kvs'. Inr ((k', v) # kvs')))"

section \<open>Lower case\<close>

fun lower_char :: "char \<Rightarrow> char" where
  "lower_char (Char b0 b1 b2 b3 b4 b5 b6 b7) =
     (if 65 \<le> (of_char (Char b0 b1 b2 b3 b4 b5 b6 b7) :: nat)
         \<and> (of_char (Char b0 b1 b2 b3 b4 b5 b6 b7) :: nat) \<le> 90
      then Char b0 b1 b2 b3 b4 True b6 b7
      else Char b0 b1 b2 b3 b4 b5 b6 b7)"

definition py_lower :: "string \<Rightarrow> string" where
  \<comment> \<open>\<open>s.lower()\<close>\<close>
  "py_lower s = map lower_char s"

definition lower_field :: "cell \<Rightarrow> string" where
  \<comment> \<open>\<open>x.lower() if x else ""\<close>: \<open>None\<close> and the empty string give \<open>""\<close>\<close>
  "lower_field v = (case v of None \<Rightarrow> [] | Some s \<Rightarrow> py_lower s)"

declare py_lower_def [py_defs] lower_field_def [py_defs]

section \<open>Substrings\<close>

fun starts_with :: "string \<Rightarrow> string \<Rightarrow> bool" where
  "starts_with [] s = True"
| "starts_with (c # cs) [] = False"
| "starts_with (c # cs) (d # ds) = (c = d \<and> starts_with cs ds)"

fun py_contains :: "string \<Rightarrow> string \<Rightarrow> bool" where
  \<comment> \<open>\<open>w in s\<close> on strings: \<open>w\<close> occurs in \<open>s\<close> at some position\<close>
  "py_contains w [] = (w = [])"
| "py_contains w (c # cs) = (starts_with w (c # cs) \<or> py_contains w cs)"

definition py_any :: "string list \<Rightarrow> string \<Rightarrow> bool" where
  \<comment> \<open>\<open>any(word in s for word in ws)\<close>, tried in list order\<close>
  "py_any ws s = list_ex (\<lambda>w. py_contains w s) ws"

declare py_any_def [py_defs]

section \<open>Integers and their decimal text\<close>

definition is_digit :: "char \<Rightarrow> bool" where
  "is_digit c = (48 \<le> (of_char c :: nat) \<and> (of_char c :: nat) \<le> 57)"

definition digit_val :: "char \<Rightarrow> int" where
  "digit_val c = int (of_char c) - 48"

definition is_py_space :: "char \<Rightarrow> bool" where
  \<comment> \<open>the ASCII characters \<open>str.strip()\<close> removes: space, \<open>\t \n \v \f \r\<close>\<close>
  "is_py_space c = (c = CHR '' '' \<or> (9 \<le> (of_char c :: nat) \<and> (of_char c :: nat) \<le> 13))"

definition py_strip :: "string \<Rightarrow> string" where
  "py_strip s = rev (dropWhile is_py_space (rev (dropWhile is_py_space s)))"

fun parse_digits :: "int \<Rightarrow> bool \<Rightarrow> string \<Rightarrow> int option" where
  \<comment> \<open>digits with single underscores between them, as \<open>int()\<close> accepts; the flag
      says whether the last character was a digit\<close>
  "parse_digits acc prev [] = (if prev then Some acc else None)"
| "parse_digits acc prev (c # cs) =
     (if is_digit c then parse_digits (10 * acc + digit_val c) True cs
      else if c = CHR ''_'' \<and> prev then parse_digits acc False cs
      else None)"

definition py_int :: "string \<Rightarrow> int option" where
  \<comment> \<open>\<open>int(s)\<close> in base 10; \<open>None\<close> is the \<open>ValueError\<close> it raises\<close>
  "py_int s = (case py_strip s of
       [] \<Rightarrow> None
     | c # cs \<Rightarrow>
         if c = CHR ''-'' then map_option uminus (parse_digits 0 False cs)
         else if c = CHR ''+'' then parse_digits 0 False cs
         else parse_digits 0 False (c # cs))"

fun show_nat :: "nat \<Rightarrow> string" where
  \<comment> \<open>the decimal text of a natural number\<close>
  "show_nat n = (if n < 10 then [char_of (48 + n)] else show_nat (n div 10) @ [char_of (48 + n mod 10)])"

declare show_nat.simps [simp del]

definition py_str_int :: "int \<Rightarrow> string" where
  \<comment> \<open>\<open>str(n)\<close>\<close>
  "py_str_int n = (if n < 0 then CHR ''-'' # show_nat (nat (- n)) else show_nat (nat n))"

declare is_digit_def [py_defs] digit_val_def [py_defs] is_py_space_def [py_defs]
  py_strip_def [py_defs] py_int_def [py_defs]


section \<open>Lemmas on the primitives\<close>

subsection \<open>Exceptions and dictionaries\<close>

lemma sbind_Inl [simp]: "sbind (Inl e) f = Inl e"
  by (simp add: sbind_def)

lemma sbind_Inr [simp]: "sbind (Inr a) f = f a"
  by (simp add: sbind_def)

lemma raises_iff: "\<not> raises x \<longleftrightarrow> (\<exists>a. x = Inr a)"
  by (cases x) (simp_all add: raises_def)

lemma sbind_eq_Inr: "sbind x f = Inr b \<longleftrightarrow> (\<exists>a. x = Inr a \<and> f a = Inr b)"
  by (cases x) auto

lemma smap_Inr_iff: "smap f xs = Inr ys \<longleftrightarrow> list_all2 (\<lambda>x y. f x = Inr y) xs ys"
proof (induction xs arbitrary: ys)
  case Nil
  then show ?case by auto
next
  case (Cons x xs)
  show ?case
    by (cases ys) (auto simp: sbind_eq_Inr Cons.IH)
qed

lemma smap_Inr_map: "smap f xs = Inr ys \<Longrightarrow> ys = map (\<lambda>x. projr (f x)) xs"
  by (induction xs arbitrary: ys) (auto simp: sbind_eq_Inr)

lemma smap_Inr_exists: "(\<exists>ys. smap f xs = Inr ys) \<longleftrightarrow> list_all (\<lambda>x. \<not> raises (f x)) xs"
  by (induction xs) (auto simp: sbind_eq_Inr raises_iff)

lemma update_at_keys: "update_at k f kvs = Inr kvs' \<Longrightarrow> map fst kvs' = map fst kvs"
  by (induction k f kvs arbitrary: kvs' rule: update_at.induct) (auto simp: sbind_eq_Inr split: if_splits)

lemma update_at_sum:
  fixes G :: "'v \<Rightarrow> 'a::comm_monoid_add"
  assumes "update_at k f kvs = Inr kvs'" and "\<And>v v'. f v = Inr v' \<Longrightarrow> G v' = G v + h"
  shows "(\<Sum>(k, v)\<leftarrow>kvs'. G v) = (\<Sum>(k, v)\<leftarrow>kvs. G v) + h"
  using assms(1)
proof (induction kvs arbitrary: kvs')
  case Nil
  then show ?case by simp
next
  case (Cons kv kvs)
  obtain k' v where kv: "kv = (k', v)" by (cases kv)
  show ?case
  proof (cases "k = k'")
    case True
    with Cons.prems kv obtain v' where fv: "f v = Inr v'" and "kvs' = (k', v') # kvs"
      by (auto simp: sbind_eq_Inr)
    moreover have "G v' = G v + h" using assms(2) [OF fv] .
    ultimately show ?thesis by (simp add: kv ac_simps)
  next
    case False
    with Cons.prems kv obtain kvs'' where "update_at k f kvs = Inr kvs''" and "kvs' = (k', v) # kvs''"
      by (auto simp: sbind_eq_Inr)
    with Cons.IH show ?thesis by (simp add: kv ac_simps)
  qed
qed

lemma update_at_Inr_iff:
  "(\<exists>kvs'. update_at k f kvs = Inr kvs') \<longleftrightarrow> (\<exists>v v'. map_of kvs k = Some v \<and> f v = Inr v')"
  by (induction k f kvs rule: update_at.induct) (auto simp: sbind_eq_Inr)

subsection \<open>Substrings\<close>

lemma starts_with_prefix: "starts_with w s \<longleftrightarrow> prefix w s"
  by (induction w s rule: starts_with.induct) auto

lemma py_contains_sublist: "py_contains w s \<longleftrightarrow> sublist w s"
  by (induction w s rule: py_contains.induct) (auto simp: starts_with_prefix sublist_Cons_right)

lemma py_contains_append_left: "py_contains w s \<Longrightarrow> py_contains w (t @ s)"
  by (metis py_contains_sublist sublist_append_leftI sublist_order.order.trans)

lemma py_contains_append_right: "py_contains w s \<Longrightarrow> py_contains w (s @ t)"
  by (metis py_contains_sublist sublist_append_rightI sublist_order.order.trans)

subsection \<open>Decimal text\<close>

lemma digit_char:
  assumes "d < 10"
  shows "is_digit (char_of (48 + d))" and "digit_val (char_of (48 + d)) = int d"
    and "char_of (48 + d) \<noteq> CHR ''_''"
proof -
  have o: "(of_char (char_of (48 + d)) :: nat) = 48 + d"
    using assms by simp
  show "is_digit (char_of (48 + d))" "digit_val (char_of (48 + d)) = int d"
    using assms by (simp_all add: is_digit_def digit_val_def o)
  show "char_of (48 + d) \<noteq> CHR ''_''"
  proof
    assume "char_of (48 + d) = CHR ''_''"
    then have "(of_char (char_of (48 + d)) :: nat) = of_char CHR ''_''" by simp
    with o assms show False by simp
  qed
qed

lemma show_nat_digits: "\<forall>c \<in> set (show_nat n). is_digit c"
proof (induction n rule: show_nat.induct)
  case (1 n)
  have "n mod 10 < 10" by simp
  with 1 show ?case
    by (simp add: show_nat.simps [of n] digit_char)
qed

lemma show_nat_nonempty: "show_nat n \<noteq> []"
  by (subst show_nat.simps) simp

lemma parse_digits_show_nat:
  "parse_digits acc prev (show_nat n @ rest) = parse_digits (acc * 10 ^ length (show_nat n) + int n) True rest"
proof (induction n arbitrary: acc prev rest rule: show_nat.induct)
  case (1 n)
  show ?case
  proof (cases "n < 10")
    case True
    then have "parse_digits acc prev (show_nat n @ rest) = parse_digits (10 * acc + int n) True rest"
      by (simp add: show_nat.simps [of n] digit_char)
    with True show ?thesis
      by (simp add: show_nat.simps [of n] mult.commute)
  next
    case False
    have m: "n mod 10 < 10" by simp
    have "parse_digits acc prev (show_nat n @ rest)
        = parse_digits acc prev (show_nat (n div 10) @ char_of (48 + n mod 10) # rest)"
      using False by (simp add: show_nat.simps [of n])
    also have "\<dots> = parse_digits (acc * 10 ^ length (show_nat (n div 10)) + int (n div 10)) True
                      (char_of (48 + n mod 10) # rest)"
      using False by (rule "1.IH")
    also have "\<dots> = parse_digits ((acc * 10 ^ length (show_nat (n div 10)) + int (n div 10)) * 10
                      + int (n mod 10)) True rest"
      using m by (simp add: digit_char algebra_simps)
    also have "(acc * 10 ^ length (show_nat (n div 10)) + int (n div 10)) * 10 + int (n mod 10)
             = acc * 10 ^ length (show_nat n) + int n"
      using False by (simp add: show_nat.simps [of n] algebra_simps zmod_int zdiv_int)
    finally show ?thesis .
  qed
qed

lemma digit_not_space: "is_digit c \<Longrightarrow> \<not> is_py_space c"
  by (auto simp: is_digit_def is_py_space_def)

lemma digit_not_sign: "is_digit c \<Longrightarrow> c \<noteq> CHR ''-'' \<and> c \<noteq> CHR ''+''"
  by (auto simp: is_digit_def)

lemma py_strip_id:
  assumes "s \<noteq> []" and "\<not> is_py_space (hd s)" and "\<not> is_py_space (last s)"
  shows "py_strip s = s"
proof -
  have "dropWhile is_py_space s = s"
    using assms(2) by (simp add: dropWhile_eq_self_iff)
  moreover have "dropWhile is_py_space (rev s) = rev s"
    using assms(1,3) by (simp add: dropWhile_eq_self_iff hd_rev)
  ultimately show ?thesis by (simp add: py_strip_def)
qed

lemma parse_show_nat: "parse_digits 0 False (show_nat n) = Some (int n)"
  using parse_digits_show_nat [of 0 False n "[]"] by simp

lemma py_int_py_str_int: "py_int (py_str_int n) = Some n"
proof -
  let ?m = "nat \<bar>n\<bar>"
  have ne: "show_nat ?m \<noteq> []" by (rule show_nat_nonempty)
  have dg: "\<forall>c \<in> set (show_nat ?m). is_digit c" by (rule show_nat_digits)
  then have hd_d: "is_digit (hd (show_nat ?m))" and last_d: "is_digit (last (show_nat ?m))"
    using ne by simp_all
  show ?thesis
  proof (cases "n < 0")
    case True
    then have s: "py_str_int n = CHR ''-'' # show_nat ?m" by (simp add: py_str_int_def)
    have "\<not> is_py_space (last (py_str_int n))"
      using ne last_d by (simp add: s digit_not_space)
    moreover have "\<not> is_py_space (hd (py_str_int n))"
      by (simp add: s is_py_space_def)
    ultimately have "py_strip (py_str_int n) = py_str_int n"
      by (simp add: py_strip_id s)
    with True show ?thesis
      by (simp add: py_int_def s parse_show_nat)
  next
    case False
    then have s: "py_str_int n = show_nat ?m" by (simp add: py_str_int_def)
    have "py_strip (py_str_int n) = py_str_int n"
      using ne hd_d last_d by (simp add: s digit_not_space py_strip_id)
    moreover obtain c cs where "show_nat ?m = c # cs" using ne by (cases "show_nat ?m") auto
    moreover have "c \<noteq> CHR ''-'' \<and> c \<noteq> CHR ''+''"
      using hd_d calculation(2) by (simp add: digit_not_sign)
    ultimately show ?thesis
      using False parse_show_nat [of ?m] by (simp add: py_int_def s)
  qed
qed

lemma py_any_iff: "py_any ws s \<longleftrightarrow> (\<exists>w \<in> set ws. py_contains w s)"
  by (simp add: py_any_def list_ex_iff)

lemma py_any_append_left: "py_any ws s \<Longrightarrow> py_any ws (t @ s)"
  by (auto simp: py_any_iff intro: py_contains_append_left)

lemma py_any_append_right: "py_any ws s \<Longrightarrow> py_any ws (s @ t)"
  by (auto simp: py_any_iff intro: py_contains_append_right)

end
