(* ===== verification/Shelves.thy ===== *)
theory Shelves
  imports Prelude
begin

text \<open>
  The fixed configuration of \<open>generate_organization.py\<close>: the physical shelves
  (\<open>SHELF_DIMENSIONS\<close>) and the names of their rows (\<open>ORGANIZATION\<close>), both
  dictionaries in insertion order, modelled as association lists. A shelf slot is a
  pair of a shelf identifier and a row number; \<open>valid_slot\<close> says that the space
  calculator has an entry for it, so that writing to it raises no \<open>KeyError\<close>.
\<close>

record shelf_dim =
  dim_rows :: nat
  dim_width :: nat
  dim_depth :: nat

type_synonym slot = "string \<times> nat"

definition SHELF_DIMENSIONS :: "(string \<times> shelf_dim) list" where
  "SHELF_DIMENSIONS =
     [(''office_a'', \<lparr>dim_rows = 5, dim_width = 32, dim_depth = 26\<rparr>),
      (''office_b'', \<lparr>dim_rows = 4, dim_width = 32, dim_depth = 26\<rparr>),
      (''dining'', \<lparr>dim_rows = 3, dim_width = 24, dim_depth = 24\<rparr>),
      (''hallway'', \<lparr>dim_rows = 2, dim_width = 16, dim_depth = 16\<rparr>),
      (''crate_h'', \<lparr>dim_rows = 1, dim_width = 32, dim_depth = 12\<rparr>),
      (''crate_v'', \<lparr>dim_rows = 1, dim_width = 12, dim_depth = 32\<rparr>)]"

definition ORGANIZATION :: "(string \<times> (nat \<times> string) list) list" where
  "ORGANIZATION =
     [(''office_a'',
        [(1, ''Core Language Learning''), (2, ''Essential Programming & Math''),
         (3, ''Core Science Textbooks''), (4, ''Essential Philosophy''),
         (5, ''Professional Writing & Development'')]),
      (''office_b'',
        [(1, ''Philosophy & Political Thought''), (2, ''Academic Textbooks & References''),
         (3, ''Essays & Collections''), (4, ''Gaming & Strategy'')]),
      (''dining'',
        [(1, ''Japanese Language & Asian Cooking''), (2, ''Chinese Language & Global Cooking''),
         (3, ''Other Languages & Kitchen References'')]),
      (''hallway'',
        [(1, ''History & Historical Works''), (2, ''Literature, Fiction & Classics'')]),
      (''crate_h'', [(1, ''General Overflow Storage'')]),
      (''crate_v'', [(1, ''Mathematics, Science & References'')])]"

definition available_width :: "shelf_dim \<Rightarrow> nat" where
  \<comment> \<open>\<open>SHELF_DIMENSIONS[s]['width'] * SHELF_DIMENSIONS[s]['rows']\<close>\<close>
  "available_width d = dim_width d * dim_rows d"

definition valid_slot :: "slot \<Rightarrow> bool" where
  "valid_slot sl = (case map_of SHELF_DIMENSIONS (fst sl) of
       None \<Rightarrow> False
     | Some d \<Rightarrow> 1 \<le> snd sl \<and> snd sl \<le> dim_rows d)"

lemmas shelf_config = SHELF_DIMENSIONS_def ORGANIZATION_def

lemma valid_slot_iff:
  "valid_slot (s, r) \<longleftrightarrow>
     (s = ''office_a'' \<and> r \<in> {1..5}) \<or> (s = ''office_b'' \<and> r \<in> {1..4}) \<or>
     (s = ''dining'' \<and> r \<in> {1..3}) \<or> (s = ''hallway'' \<and> r \<in> {1..2}) \<or>
     (s = ''crate_h'' \<and> r = 1) \<or> (s = ''crate_v'' \<and> r = 1)"
  by (auto simp: valid_slot_def SHELF_DIMENSIONS_def)

lemma available_width_pos: "(s, d) \<in> set SHELF_DIMENSIONS \<Longrightarrow> 0 < available_width d"
  by (auto simp: SHELF_DIMENSIONS_def available_width_def)

lemma distinct_shelf_ids: "distinct (map fst SHELF_DIMENSIONS)"
  by (simp add: SHELF_DIMENSIONS_def)

end
