(* ===== verification/Classifier.thy ===== *)
theory Classifier
  imports Shelves
begin

text \<open>
  The two rule-based shelf classifiers of \<open>generate_organization.py\<close>:
  \<open>categorize_book\<close> (the default of \<open>calculate_space_usage\<close>) and
  \<open>balanced_categorize_book\<close> (the one \<open>main\<close> runs, through \<open>iterative_balance\<close>).
  Both lower-case and join the four text fields (\<open>combined_text\<close>), then walk an
  if-chain of keyword tests; the first test that holds decides the slot. The chains
  are \<open>categorize_combined\<close> and \<open>balanced_combined\<close>, literal translations of the
  source. For the proofs, each chain is restated rule by rule as a table searched by
  \<open>first_match\<close> (\<open>categorize_combined_table\<close>); the tables let the slot-validity
  lemmas range over the table's rows instead of unfolding the chain.
\<close>

section \<open>Joining the text fields\<close>

definition combined_text :: "cell \<Rightarrow> cell \<Rightarrow> cell \<Rightarrow> cell \<Rightarrow> py_error + string" where
  \<comment> \<open>\<open>title.lower()\<close> raises \<open>AttributeError\<close> on \<open>None\<close>; the other fields are guarded\<close>
  "combined_text title tags grp description =
     (case title of
        None \<Rightarrow> Inl AttributeError
      | Some t \<Rightarrow> Inr (py_lower t @ '' '' @ lower_field tags @ '' '' @ lower_field grp
                       @ '' '' @ lower_field description))"

type_synonym categorizer = "cell \<Rightarrow> cell \<Rightarrow> cell \<Rightarrow> cell \<Rightarrow> row \<Rightarrow> py_error + slot"

section \<open>\<open>categorize_book\<close>\<close>

definition categorize_combined :: "string \<Rightarrow> slot" where
  "categorize_combined c =
    (if py_any [''genki'', ''tobira'', ''integrated chinese'', ''kanji for international''] c
     then (''office_a'', 1)
     else if py_any [''algorithms'', ''clean code'', ''programming language'', ''knuth'',
                     ''art of computer''] c
     then (''office_a'', 2)
     else if py_any [''physics'', ''chemistry''] c \<and> py_contains ''textbook'' c
     then (''office_a'', 3)
     else if py_any [''kant'', ''groundwork'', ''nietzsche'', ''republic'', ''analects''] c
     then (''office_a'', 4)
     else if py_any [''writer's reference'', ''writing'', ''professional''] c
     then (''office_a'', 5)
     else if py_any [''japanese'', ''chinese'', ''korean'', ''language'', ''dictionary'',
                     ''grammar''] c \<and> \<not> py_contains ''cooking'' c
     then (if py_contains ''japanese'' c \<or> py_contains ''kanji'' c then (''dining'', 1)
           else if py_contains ''chinese'' c then (''dining'', 2)
           else (''dining'', 3))
     else if py_any [''history'', ''historical'', ''revolution'', ''war'', ''ancient'',
                     ''medieval''] c
     then (''hallway'', 1)
     else if py_any [''dover'', ''classics'', ''poetry'', ''shakespeare'', ''literature'',
                     ''fiction'', ''novel''] c
     then (''hallway'', 2)
     else if py_any [''mathematics'', ''math'', ''dover'', ''logic'', ''science'', ''reference''] c
     then (''crate_v'', 1)
     else if py_any [''game'', ''gaming'', ''rpg'', ''d&d'', ''strategy'', ''chess''] c
     then (''office_b'', 4)
     else if py_any [''philosophy'', ''political'', ''ethics'', ''tao''] c
     then (''office_b'', 1)
     else if py_any [''textbook'', ''academic'', ''university''] c
     then (''office_b'', 2)
     else if py_any [''uncle john'', ''essay'', ''anthology'', ''collection''] c
     then (''office_b'', 3)
     else if py_any [''cooking'', ''cook'', ''food'', ''recipe'', ''kitchen'', ''culinary''] c
     then (if py_any [''asian'', ''japanese'', ''chinese'', ''sushi'', ''wok''] c then (''dining'', 1)
           else if py_any [''bittman'', ''international'', ''global''] c then (''dining'', 2)
           else (''dining'', 3))
     else (''crate_h'', 1))"

definition categorize_book :: "cell \<Rightarrow> cell \<Rightarrow> cell \<Rightarrow> cell \<Rightarrow> py_error + slot" where
  "categorize_book title tags grp description =
     (case combined_text title tags grp description of
        Inl e \<Rightarrow> Inl e
      | Inr c \<Rightarrow> Inr (categorize_combined c))"

section \<open>\<open>balanced_categorize_book\<close>\<close>

definition balanced_combined :: "string \<Rightarrow> slot" where
  "balanced_combined c =
    (if py_any [''genki i'', ''genki ii'', ''tobira'', ''clean code''] c then (''office_a'', 1)
     else if py_any [''algorithms'', ''art of computer'', ''programming language''] c
     then (''office_a'', 2)
     else if py_any [''physics'', ''chemistry''] c \<and> py_contains ''textbook'' c
     then (''office_a'', 3)
     else if py_any [''kant'', ''groundwork'', ''republic''] c then (''office_a'', 4)
     else if py_any [''writer's reference'', ''writing''] c then (''office_a'', 5)
     else if py_any [''programming'', ''computer'', ''software'', ''math''] c then (''office_b'', 1)
     else if py_any [''philosophy'', ''political'', ''ethics''] c then (''office_b'', 2)
     else if py_any [''reference'', ''textbook'', ''academic''] c then (''office_b'', 3)
     else if py_any [''game'', ''gaming'', ''rpg'', ''chess'', ''strategy''] c then (''office_b'', 4)
     else if py_any [''cooking'', ''cook'', ''food'', ''recipe'', ''kitchen''] c then (''dining'', 1)
     else if py_any [''japanese'', ''kanji''] c \<and> \<not> py_contains ''cooking'' c then (''dining'', 2)
     else if py_any [''chinese'', ''korean'', ''language''] c \<and> \<not> py_contains ''cooking'' c
     then (''dining'', 3)
     else if py_any [''fiction'', ''novel'', ''poetry''] c then (''hallway'', 1)
     else if py_any [''uncle john'', ''essay'', ''anthology''] c then (''hallway'', 2)
     else if py_any [''history'', ''historical'', ''war'', ''revolution''] c then (''crate_h'', 1)
     else if py_any [''dover'', ''classics'', ''literature''] c \<and> \<not> py_contains ''japanese'' c
     then (''crate_v'', 1)
     else (''office_b'', 2))"

definition balanced_categorize_book :: "cell \<Rightarrow> cell \<Rightarrow> cell \<Rightarrow> cell \<Rightarrow> py_error + slot" where
  "balanced_categorize_book title tags grp description =
     (case combined_text title tags grp description of
        Inl e \<Rightarrow> Inl e
      | Inr c \<Rightarrow> Inr (balanced_combined c))"

section \<open>The chains as rule tables\<close>

fun first_match :: "((string \<Rightarrow> bool) \<times> 'r) list \<Rightarrow> 'r \<Rightarrow> string \<Rightarrow> 'r" where
  "first_match [] d c = d"
| "first_match ((p, r) # rs) d c = (if p c then r else first_match rs d c)"

definition categorize_table :: "((string \<Rightarrow> bool) \<times> slot) list" where
  "categorize_table =
    [(py_any [''genki'', ''tobira'', ''integrated chinese'', ''kanji for international''],
        (''office_a'', 1)),
     (py_any [''algorithms'', ''clean code'', ''programming language'', ''knuth'', ''art of computer''],
        (''office_a'', 2)),
     (\<lambda>c. py_any [''physics'', ''chemistry''] c \<and> py_contains ''textbook'' c, (''office_a'', 3)),
     (py_any [''kant'', ''groundwork'', ''nietzsche'', ''republic'', ''analects''], (''office_a'', 4)),
     (py_any [''writer's reference'', ''writing'', ''professional''], (''office_a'', 5)),
     (\<lambda>c. py_any [''japanese'', ''chinese'', ''korean'', ''language'', ''dictionary'', ''grammar''] c
          \<and> \<not> py_contains ''cooking'' c \<and> (py_contains ''japanese'' c \<or> py_contains ''kanji'' c),
        (''dining'', 1)),
     (\<lambda>c. py_any [''japanese'', ''chinese'', ''korean'', ''language'', ''dictionary'', ''grammar''] c
          \<and> \<not> py_contains ''cooking'' c \<and> py_contains ''chinese'' c,
        (''dining'', 2)),
     (\<lambda>c. py_any [''japanese'', ''chinese'', ''korean'', ''language'', ''dictionary'', ''grammar''] c
          \<and> \<not> py_contains ''cooking'' c,
        (''dining'', 3)),
     (py_any [''history'', ''historical'', ''revolution'', ''war'', ''ancient'', ''medieval''],
        (''hallway'', 1)),
     (py_any [''dover'', ''classics'', ''poetry'', ''shakespeare'', ''literature'', ''fiction'', ''novel''],
        (''hallway'', 2)),
     (py_any [''mathematics'', ''math'', ''dover'', ''logic'', ''science'', ''reference''], (''crate_v'', 1)),
     (py_any [''game'', ''gaming'', ''rpg'', ''d&d'', ''strategy'', ''chess''], (''office_b'', 4)),
     (py_any [''philosophy'', ''political'', ''ethics'', ''tao''], (''office_b'', 1)),
     (py_any [''textbook'', ''academic'', ''university''], (''office_b'', 2)),
     (py_any [''uncle john'', ''essay'', ''anthology'', ''collection''], (''office_b'', 3)),
     (\<lambda>c. py_any [''cooking'', ''cook'', ''food'', ''recipe'', ''kitchen'', ''culinary''] c
          \<and> py_any [''asian'', ''japanese'', ''chinese'', ''sushi'', ''wok''] c, (''dining'', 1)),
     (\<lambda>c. py_any [''cooking'', ''cook'', ''food'', ''recipe'', ''kitchen'', ''culinary''] c
          \<and> py_any [''bittman'', ''international'', ''global''] c, (''dining'', 2)),
     (py_any [''cooking'', ''cook'', ''food'', ''recipe'', ''kitchen'', ''culinary''], (''dining'', 3))]"

definition balanced_table :: "((string \<Rightarrow> bool) \<times> slot) list" where
  "balanced_table =
    [(py_any [''genki i'', ''genki ii'', ''tobira'', ''clean code''], (''office_a'', 1)),
     (py_any [''algorithms'', ''art of computer'', ''programming language''], (''office_a'', 2)),
     (\<lambda>c. py_any [''physics'', ''chemistry''] c \<and> py_contains ''textbook'' c, (''office_a'', 3)),
     (py_any [''kant'', ''groundwork'', ''republic''], (''office_a'', 4)),
     (py_any [''writer's reference'', ''writing''], (''office_a'', 5)),
     (py_any [''programming'', ''computer'', ''software'', ''math''], (''office_b'', 1)),
     (py_any [''philosophy'', ''political'', ''ethics''], (''office_b'', 2)),
     (py_any [''reference'', ''textbook'', ''academic''], (''office_b'', 3)),
     (py_any [''game'', ''gaming'', ''rpg'', ''chess'', ''strategy''], (''office_b'', 4)),
     (py_any [''cooking'', ''cook'', ''food'', ''recipe'', ''kitchen''], (''dining'', 1)),
     (\<lambda>c. py_any [''japanese'', ''kanji''] c \<and> \<not> py_contains ''cooking'' c, (''dining'', 2)),
     (\<lambda>c. py_any [''chinese'', ''korean'', ''language''] c \<and> \<not> py_contains ''cooking'' c,
        (''dining'', 3)),
     (py_any [''fiction'', ''novel'', ''poetry''], (''hallway'', 1)),
     (py_any [''uncle john'', ''essay'', ''anthology''], (''hallway'', 2)),
     (py_any [''history'', ''historical'', ''war'', ''revolution''], (''crate_h'', 1)),
     (\<lambda>c. py_any [''dover'', ''classics'', ''literature''] c \<and> \<not> py_contains ''japanese'' c,
        (''crate_v'', 1))]"

text \<open>
  The interface between the classifiers and the space calculator: a categorizer is
  well-behaved when every slot it returns is one the calculator has a row for.
\<close>

definition categorizer_ok :: "categorizer \<Rightarrow> bool" where
  "categorizer_ok cat = (\<forall>t g gr d it sl. cat t g gr d it = Inr sl \<longrightarrow> valid_slot sl)"

section \<open>Lemmas\<close>

subsection \<open>Rule tables\<close>

lemma first_match_result: "first_match rs d c \<in> insert d (snd ` set rs)"
  by (induction rs d c rule: first_match.induct) auto

lemma first_match_wins:
  "list_all (\<lambda>(p, r). \<not> p c) pre \<Longrightarrow> p c \<Longrightarrow> first_match (pre @ (p, r) # post) d c = r"
  by (induction pre) auto

lemma first_match_default: "list_all (\<lambda>(p, r). \<not> p c) rs \<Longrightarrow> first_match rs d c = d"
  by (induction rs) auto

lemma if_nest3:
  "(if L then (if J then a else if C then b else e) else R) =
   (if L \<and> J then a else if L \<and> C then b else if L then e else R)"
  by simp

lemma categorize_combined_table:
  "categorize_combined c = first_match categorize_table (''crate_h'', 1) c"
  unfolding categorize_combined_def categorize_table_def
  by (simp only: first_match.simps if_nest3 conj_assoc)

lemma balanced_combined_table:
  "balanced_combined c = first_match balanced_table (''office_b'', 2) c"
  unfolding balanced_combined_def balanced_table_def
  by (simp only: first_match.simps)

lemma categorize_table_valid: "\<forall>sl \<in> snd ` set categorize_table. valid_slot sl"
  by (simp add: categorize_table_def valid_slot_iff)

lemma balanced_table_valid: "\<forall>sl \<in> snd ` set balanced_table. valid_slot sl"
  by (simp add: balanced_table_def valid_slot_iff)

lemma first_match_valid:
  "\<forall>sl \<in> snd ` set rs. valid_slot sl \<Longrightarrow> valid_slot d \<Longrightarrow> valid_slot (first_match rs d c)"
  using first_match_result [of rs d c] by auto

lemma categorize_combined_valid: "valid_slot (categorize_combined c)"
  by (simp add: categorize_combined_table first_match_valid categorize_table_valid valid_slot_iff)

lemma balanced_combined_valid: "valid_slot (balanced_combined c)"
  by (simp add: balanced_combined_table first_match_valid balanced_table_valid valid_slot_iff)

subsection \<open>The classifiers meet the space calculator's interface\<close>

lemma categorize_book_Inr:
  "categorize_book t g gr d = Inr sl \<longleftrightarrow> (\<exists>c. combined_text t g gr d = Inr c \<and> sl = categorize_combined c)"
  by (cases "combined_text t g gr d") (auto simp: categorize_book_def)

lemma balanced_categorize_book_Inr:
  "balanced_categorize_book t g gr d = Inr sl \<longleftrightarrow>
     (\<exists>c. combined_text t g gr d = Inr c \<and> sl = balanced_combined c)"
  by (cases "combined_text t g gr d") (auto simp: balanced_categorize_book_def)

lemma categorizer_ok_categorize_book: "categorizer_ok (\<lambda>t g gr d it. categorize_book t g gr d)"
  unfolding categorizer_ok_def categorize_book_Inr by (blast intro: categorize_combined_valid)

lemma categorizer_ok_balanced: "categorizer_ok (\<lambda>t g gr d it. balanced_categorize_book t g gr d)"
  unfolding categorizer_ok_def balanced_categorize_book_Inr by (blast intro: balanced_combined_valid)

subsection \<open>Lower case\<close>

lemma lower_char_idem: "lower_char (lower_char c) = lower_char c"
proof (cases c)
  case (Char b0 b1 b2 b3 b4 b5 b6 b7)
  have low: "of_bool b0 + 2 * (of_bool b1 + 2 * (of_bool b2 + 2 * (of_bool b3 + 2 * of_bool b4)))
             \<le> (31::nat)"
    by (cases b0; cases b1; cases b2; cases b3; cases b4) simp_all
  show ?thesis
    unfolding Char using low by (cases b5; cases b6; cases b7) (simp_all add: algebra_simps)
qed

lemma py_lower_idem: "py_lower (py_lower s) = py_lower s"
  by (simp add: py_lower_def lower_char_idem)

lemma lower_field_lower: "lower_field (map_option py_lower v) = lower_field v"
  by (cases v) (simp_all add: lower_field_def py_lower_idem)

lemma combined_text_lower:
  "combined_text (map_option py_lower t) (map_option py_lower g) (map_option py_lower gr)
     (map_option py_lower d) = combined_text t g gr d"
  by (cases t) (simp_all add: combined_text_def lower_field_lower py_lower_idem)

lemma combined_text_error: "combined_text t g gr d = Inl e \<longleftrightarrow> t = None \<and> e = AttributeError"
  by (cases t) (auto simp: combined_text_def)

section \<open>Properties of the classifiers\<close>

text \<open>
  C4. Every slot \<open>categorize_book\<close> returns is a row the space calculator has:
  the shelf is a key of \<open>SHELF_DIMENSIONS\<close> and the row number lies between 1 and the
  shelf's row count, so \<open>shelf_usage[shelf_id]['rows'][row_num]\<close> never raises.
\<close>

theorem categorize_book_valid_slot:
  "categorize_book t g gr d = Inr sl \<Longrightarrow> valid_slot sl"
  unfolding categorize_book_Inr by (blast intro: categorize_combined_valid)

text \<open>
  C5. The same holds for \<open>balanced_categorize_book\<close>, the classifier the program
  actually runs.
\<close>

theorem balanced_categorize_book_valid_slot:
  "balanced_categorize_book t g gr d = Inr sl \<Longrightarrow> valid_slot sl"
  unfolding balanced_categorize_book_Inr by (blast intro: balanced_combined_valid)

text \<open>
  C6. Matching is case-insensitive: classifying the lower-cased fields gives the same
  result as classifying the fields as they are.
\<close>

theorem categorize_book_case_insensitive:
  "categorize_book (map_option py_lower t) (map_option py_lower g) (map_option py_lower gr)
     (map_option py_lower d) = categorize_book t g gr d"
  by (simp add: categorize_book_def combined_text_lower)

text \<open>
  C7. The keyword \<open>dover\<close> of the \<open>crate_v\<close> rule of \<open>categorize_book\<close> is dead:
  the earlier \<open>hallway\<close> row-2 rule also lists it, so a text that contains
  \<open>dover\<close> is never sent to \<open>crate_v\<close>.
\<close>

theorem categorize_book_dover_not_crate_v:
  "combined_text t g gr d = Inr c \<Longrightarrow> py_contains ''dover'' c \<Longrightarrow>
   categorize_book t g gr d \<noteq> Inr (''crate_v'', 1)"
  by (auto simp: categorize_book_def categorize_combined_def py_any_def)

end
