(* ===== verification/Width.thy ===== *)
theory Width
  imports Prelude
begin

text \<open>
  \<open>estimate_book_width\<close> of \<open>generate_organization.py\<close>: the spine width in inches
  estimated from a page count, a step function with bands closed at their upper end.
  Python's floats are modelled as exact rationals; every width is a whole number of
  quarter inches, so the sums the space calculator forms are exact in binary floating
  point as well.
\<close>

definition estimate_book_width :: "int option \<Rightarrow> rat" where
  "estimate_book_width pages =
     (case pages of
        None \<Rightarrow> 1
      | Some p \<Rightarrow>
          if p = 0 \<or> p \<le> 0 then 1
          else if p \<le> 100 then 1 / 2
          else if p \<le> 200 then 3 / 4
          else if p \<le> 300 then 1
          else if p \<le> 500 then 5 / 4
          else if p \<le> 750 then 3 / 2
          else 2)"

definition width_values :: "rat set" where
  "width_values = {1 / 2, 3 / 4, 1, 5 / 4, 3 / 2, 2}"

lemma estimate_book_width_in_values: "estimate_book_width pages \<in> width_values"
  by (simp add: estimate_book_width_def width_values_def split: option.splits)

lemma estimate_book_width_bands:
  "0 < p \<Longrightarrow> estimate_book_width (Some p) =
     (if p \<le> 100 then 1 / 2 else if p \<le> 200 then 3 / 4 else if p \<le> 300 then 1
      else if p \<le> 500 then 5 / 4 else if p \<le> 750 then 3 / 2 else 2)"
  by (simp add: estimate_book_width_def)

section \<open>Properties\<close>

text \<open>
  C8. On positive page counts the width estimate is non-decreasing.
\<close>

theorem estimate_book_width_mono:
  "0 < p \<Longrightarrow> p \<le> q \<Longrightarrow> estimate_book_width (Some p) \<le> estimate_book_width (Some q)"
  by (simp add: estimate_book_width_bands)

text \<open>
  C9. Every estimate lies between half an inch and two inches and is a whole number
  of quarter inches (so sums of estimates are exact in binary floating point).
\<close>

theorem estimate_book_width_quarters:
  "1 / 2 \<le> estimate_book_width pages \<and> estimate_book_width pages \<le> 2
   \<and> (\<exists>k::int. estimate_book_width pages = of_int k / 4)"
proof -
  have "estimate_book_width pages \<in> width_values" by (rule estimate_book_width_in_values)
  then show ?thesis
    unfolding width_values_def
    by (auto intro: exI [of _ 2] exI [of _ 3] exI [of _ 4] exI [of _ 5] exI [of _ 6] exI [of _ 8])
qed

text \<open>
  C22. The note the report prints (line 529 of \<open>generate_organization.py\<close>) says
  \<open>~0.5"\<close> below 100 pages, \<open>~1.0"\<close> for 200 to 300 pages and \<open>~1.5"\<close> for
  500 to 750 pages. The code disagrees with it exactly at page counts up to 0 (estimated
  at 1 inch), at 200 pages (3/4 inch) and at 500 pages (5/4 inch).
\<close>

theorem estimate_book_width_note_disagreement:
  "(p < 100 \<and> estimate_book_width (Some p) \<noteq> 1 / 2)
   \<or> (200 \<le> p \<and> p \<le> 300 \<and> estimate_book_width (Some p) \<noteq> 1)
   \<or> (500 \<le> p \<and> p \<le> 750 \<and> estimate_book_width (Some p) \<noteq> 3 / 2)
   \<longleftrightarrow> p \<le> 0 \<or> p = 200 \<or> p = 500"
  by (auto simp: estimate_book_width_def)

end
