(* ===== verification/Space.thy ===== *)
theory Space
  imports Classifier Width "HOL-Library.Multiset"
begin

text \<open>
  \<open>calculate_space_usage\<close> of \<open>generate_organization.py\<close>. Its state is the nested
  dictionary \<open>shelf_usage\<close>: for each shelf of \<open>SHELF_DIMENSIONS\<close> (in order) a
  record of its rows (row number to used width and the list of placed books), its total
  width, its available width and its utilisation. The loop over the items is
  \<open>place_items\<close>, one step \<open>place_item\<close>; the final pass is \<open>finalize_usage\<close>.
  Every exception the code can raise is a value: \<open>KeyError\<close> for a missing
  \<open>item_type\<close> key or an unknown slot, the categorizer's own error, and
  \<open>ZeroDivisionError\<close> for a shelf without width.
\<close>

record placed_book =
  pb_title :: cell
  pb_author :: cell
  pb_pages :: int
  pb_width :: rat
  pb_item :: row

record row_usage =
  ru_width :: rat
  ru_items :: "placed_book list"

record shelf_usage =
  su_rows :: "(nat \<times> row_usage) list"
  su_total_width :: rat
  su_available_width :: nat
  su_utilization :: rat

type_synonym space_usage = "(string \<times> shelf_usage) list"

section \<open>Reading an item\<close>

definition is_book :: "row \<Rightarrow> bool" where
  \<comment> \<open>\<open>item['item_type'] == 'book'\<close> (for rows that have the key)\<close>
  "is_book item = (row_get item ''item_type'' None = Some ''book'')"

definition pages_of :: "row \<Rightarrow> int" where
  \<comment> \<open>\<open>int(item.get('length', 0) or 0)\<close>, with \<open>ValueError\<close> caught as 0\<close>
  "pages_of item =
     (case row_get item ''length'' None of
        None \<Rightarrow> 0
      | Some s \<Rightarrow> if s = [] then 0 else (case py_int s of None \<Rightarrow> 0 | Some n \<Rightarrow> n))"

definition placed_of :: "row \<Rightarrow> placed_book" where
  \<comment> \<open>the dictionary appended to the row's \<open>items\<close>\<close>
  "placed_of item =
     (let pages = pages_of item
      in \<lparr>pb_title = row_get item ''title'' (Some ''Unknown''),
          pb_author = row_get item ''creators'' (Some ''Unknown''),
          pb_pages = pages, pb_width = estimate_book_width (Some pages), pb_item = item\<rparr>)"

definition categorize_item :: "categorizer \<Rightarrow> row \<Rightarrow> py_error + slot" where
  \<comment> \<open>the categorizer call with the item's text fields, missing ones as \<open>''''\<close>\<close>
  "categorize_item cat item =
     cat (row_get item ''title'' (Some [])) (row_get item ''tags'' (Some []))
         (row_get item ''group'' (Some [])) (row_get item ''description'' (Some [])) item"

section \<open>The state and its updates\<close>

definition init_shelf :: "shelf_dim \<Rightarrow> shelf_usage" where
  "init_shelf d =
     \<lparr>su_rows = map (\<lambda>r. (r, \<lparr>ru_width = 0, ru_items = []\<rparr>)) [1..<dim_rows d + 1],
      su_total_width = 0, su_available_width = available_width d, su_utilization = 0\<rparr>"

definition init_usage :: space_usage where
  "init_usage = map (\<lambda>(s, d). (s, init_shelf d)) SHELF_DIMENSIONS"

definition add_to_row :: "placed_book \<Rightarrow> row_usage \<Rightarrow> row_usage" where
  \<comment> \<open>\<open>row['width'] += width\<close> and \<open>row['items'].append(...)\<close>\<close>
  "add_to_row b ru = ru\<lparr>ru_width := ru_width ru + pb_width b, ru_items := ru_items ru @ [b]\<rparr>"

definition add_book :: "slot \<Rightarrow> placed_book \<Rightarrow> space_usage \<Rightarrow> py_error + space_usage" where
  \<comment> \<open>\<open>shelf_usage[shelf_id]['rows'][row_num]\<close>, each lookup raising \<open>KeyError\<close>\<close>
  "add_book sl b u =
     update_at (fst sl)
       (\<lambda>su. sbind (update_at (snd sl) (\<lambda>ru. Inr (add_to_row b ru)) (su_rows su))
                (\<lambda>rs. Inr (su\<lparr>su_rows := rs\<rparr>))) u"

definition place_item :: "categorizer \<Rightarrow> space_usage \<Rightarrow> row \<Rightarrow> py_error + space_usage" where
  "place_item cat u item =
     sbind (row_index item ''item_type'')
       (\<lambda>ty. if ty = Some ''book''
             then sbind (categorize_item cat item) (\<lambda>sl. add_book sl (placed_of item) u)
             else Inr u)"

fun place_items :: "categorizer \<Rightarrow> space_usage \<Rightarrow> row list \<Rightarrow> py_error + space_usage" where
  "place_items cat u [] = Inr u"
| "place_items cat u (item # items) = sbind (place_item cat u item) (\<lambda>u'. place_items cat u' items)"

definition row_total :: "shelf_usage \<Rightarrow> rat" where
  \<comment> \<open>\<open>sum(row['width'] for row in rows.values())\<close>\<close>
  "row_total su = (\<Sum>(r, ru)\<leftarrow>su_rows su. ru_width ru)"

definition finalize_shelf :: "shelf_usage \<Rightarrow> py_error + shelf_usage" where
  "finalize_shelf su =
     (if su_available_width su = 0 then Inl ZeroDivisionError
      else Inr (su\<lparr>su_total_width := row_total su,
                   su_utilization := row_total su / of_nat (su_available_width su) * 100\<rparr>))"

fun finalize_usage :: "space_usage \<Rightarrow> py_error + space_usage" where
  "finalize_usage [] = Inr []"
| "finalize_usage ((s, su) # u) =
     sbind (finalize_shelf su) (\<lambda>su'. sbind (finalize_usage u) (\<lambda>u'. Inr ((s, su') # u')))"

definition categorizer_of :: "categorizer option \<Rightarrow> categorizer" where
  \<comment> \<open>\<open>if categorizer_func is None: categorizer_func = categorize_book\<close>\<close>
  "categorizer_of categorizer_func =
     (case categorizer_func of
        None \<Rightarrow> (\<lambda>t g gr d item. categorize_book t g gr d)
      | Some f \<Rightarrow> f)"

definition calculate_space_usage :: "row list \<Rightarrow> categorizer option \<Rightarrow> py_error + space_usage" where
  "calculate_space_usage items categorizer_func =
     sbind (place_items (categorizer_of categorizer_func) init_usage items) finalize_usage"

section \<open>Views of the state\<close>

definition usage_books :: "space_usage \<Rightarrow> placed_book list" where
  \<comment> \<open>every placed book, shelf by shelf and row by row\<close>
  "usage_books u = concat (map (\<lambda>(s, su). concat (map (\<lambda>(r, ru). ru_items ru) (su_rows su))) u)"

definition usage_shape :: "space_usage \<Rightarrow> bool" where
  \<comment> \<open>one entry per shelf, in order, with the rows \<open>1..rows\<close> and its available width\<close>
  "usage_shape u =
     list_all2 (\<lambda>(s, su) (s', d). s = s' \<and> map fst (su_rows su) = [1..<dim_rows d + 1]
                                  \<and> su_available_width su = available_width d)
       u SHELF_DIMENSIONS"

definition usage_sum :: "(row_usage \<Rightarrow> 'a::comm_monoid_add) \<Rightarrow> space_usage \<Rightarrow> 'a" where
  \<comment> \<open>a quantity summed over every row of every shelf\<close>
  "usage_sum G u = (\<Sum>(s, su)\<leftarrow>u. \<Sum>(r, ru)\<leftarrow>su_rows su. G ru)"

definition shelf_shape :: "shelf_usage \<Rightarrow> nat list \<times> nat" where
  "shelf_shape su = (map fst (su_rows su), su_available_width su)"

definition item_ok :: "categorizer \<Rightarrow> row \<Rightarrow> bool" where
  \<comment> \<open>the item has an \<open>item_type\<close> key, and a book's categorizer call does not raise\<close>
  "item_ok cat it = (map_of it ''item_type'' \<noteq> None \<and> (is_book it \<longrightarrow> \<not> raises (categorize_item cat it)))"

section \<open>Lemmas\<close>

subsection \<open>Conservation of books and widths\<close>

lemma mset_usage_books:
  "mset (usage_books u) = (\<Sum>(s, su)\<leftarrow>u. \<Sum>(r, ru)\<leftarrow>su_rows su. mset (ru_items ru))"
  by (induction u) (auto simp: usage_books_def mset_concat o_def split_def)

lemma add_book_sum:
  fixes G :: "row_usage \<Rightarrow> 'a::comm_monoid_add"
  assumes "add_book sl b u = Inr u'" and "\<And>ru. G (add_to_row b ru) = G ru + h"
  shows "(\<Sum>(s, su)\<leftarrow>u'. \<Sum>(r, ru)\<leftarrow>su_rows su. G ru) = (\<Sum>(s, su)\<leftarrow>u. \<Sum>(r, ru)\<leftarrow>su_rows su. G ru) + h"
proof -
  have inner: "(\<Sum>(r, ru)\<leftarrow>su_rows su'. G ru) = (\<Sum>(r, ru)\<leftarrow>su_rows su. G ru) + h"
    if "sbind (update_at (snd sl) (\<lambda>ru. Inr (add_to_row b ru)) (su_rows su))
            (\<lambda>rs. Inr (su\<lparr>su_rows := rs\<rparr>)) = Inr su'" for su su'
  proof -
    from that obtain rs where rs: "update_at (snd sl) (\<lambda>ru. Inr (add_to_row b ru)) (su_rows su) = Inr rs"
      and su': "su' = su\<lparr>su_rows := rs\<rparr>"
      by (auto simp: sbind_eq_Inr)
    from rs have "(\<Sum>(r, ru)\<leftarrow>rs. G ru) = (\<Sum>(r, ru)\<leftarrow>su_rows su. G ru) + h"
      by (rule update_at_sum) (simp add: assms(2))
    with su' show ?thesis by simp
  qed
  from assms(1) show ?thesis
    unfolding add_book_def by (rule update_at_sum) (rule inner)
qed

lemma add_book_usage_sum:
  "add_book sl b u = Inr u' \<Longrightarrow> (\<And>ru. G (add_to_row b ru) = G ru + h) \<Longrightarrow>
   usage_sum G u' = usage_sum G u + h"
  unfolding usage_sum_def by (rule add_book_sum)

lemma row_index_book: "row_index it ''item_type'' = Inr ty \<Longrightarrow> is_book it \<longleftrightarrow> ty = Some ''book''"
  by (auto simp: row_index_def is_book_def row_get_def split: option.splits)

lemma place_item_usage_sum:
  assumes "place_item cat u it = Inr u'" and "\<And>ru b. G (add_to_row b ru) = G ru + H b"
  shows "usage_sum G u' = usage_sum G u + (if is_book it then H (placed_of it) else 0)"
proof -
  from assms(1) obtain ty where ty: "row_index it ''item_type'' = Inr ty"
    and step: "(if ty = Some ''book''
             then sbind (categorize_item cat it) (\<lambda>sl. add_book sl (placed_of it) u)
             else Inr u) = Inr u'"
    by (auto simp: place_item_def sbind_eq_Inr)
  show ?thesis
  proof (cases "ty = Some ''book''")
    case True
    with step obtain sl where "add_book sl (placed_of it) u = Inr u'"
      by (auto simp: sbind_eq_Inr)
    then have "usage_sum G u' = usage_sum G u + H (placed_of it)"
      by (rule add_book_usage_sum) (rule assms(2))
    with True ty show ?thesis by (simp add: row_index_book)
  next
    case False
    with step ty show ?thesis by (simp add: row_index_book)
  qed
qed

lemma place_items_usage_sum:
  assumes "place_items cat u items = Inr u'" and "\<And>ru b. G (add_to_row b ru) = G ru + H b"
  shows "usage_sum G u' = usage_sum G u + (\<Sum>it\<leftarrow>filter is_book items. H (placed_of it))"
  using assms(1)
proof (induction items arbitrary: u)
  case Nil
  then show ?case by simp
next
  case (Cons it items)
  then obtain u1 where u1: "place_item cat u it = Inr u1" and rest: "place_items cat u1 items = Inr u'"
    by (auto simp: sbind_eq_Inr)
  from u1 assms(2) have "usage_sum G u1 = usage_sum G u + (if is_book it then H (placed_of it) else 0)"
    by (rule place_item_usage_sum)
  with Cons.IH [OF rest] show ?case by (simp add: ac_simps)
qed

lemma finalize_shelf_rows: "finalize_shelf su = Inr su' \<Longrightarrow> su_rows su' = su_rows su"
  by (auto simp: finalize_shelf_def split: if_splits)

lemma finalize_shelf_total: "finalize_shelf su = Inr su' \<Longrightarrow> su_total_width su' = row_total su"
  by (auto simp: finalize_shelf_def split: if_splits)

lemma finalize_usage_Cons:
  assumes "finalize_usage ((s, su) # u) = Inr v"
  obtains su' u' where "finalize_shelf su = Inr su'" and "finalize_usage u = Inr u'"
    and "v = (s, su') # u'"
  using assms by (auto simp: sbind_eq_Inr)

lemma finalize_usage_rows:
  "finalize_usage u = Inr u' \<Longrightarrow> map (\<lambda>(s, su). (s, su_rows su)) u' = map (\<lambda>(s, su). (s, su_rows su)) u"
proof (induction u arbitrary: u' rule: finalize_usage.induct)
  case 1
  then show ?case by simp
next
  case (2 s su u)
  from "2.prems" obtain su' v where "finalize_shelf su = Inr su'" "finalize_usage u = Inr v"
    and "u' = (s, su') # v"
    by (rule finalize_usage_Cons)
  with "2.IH" show ?case by (simp add: finalize_shelf_rows)
qed

lemma finalize_usage_total:
  "finalize_usage u = Inr u' \<Longrightarrow> (\<Sum>(s, su)\<leftarrow>u'. su_total_width su) = (\<Sum>(s, su)\<leftarrow>u. row_total su)"
proof (induction u arbitrary: u' rule: finalize_usage.induct)
  case 1
  then show ?case by simp
next
  case (2 s su u)
  from "2.prems" obtain su' v where "finalize_shelf su = Inr su'" "finalize_usage u = Inr v"
    and "u' = (s, su') # v"
    by (rule finalize_usage_Cons)
  with "2.IH" show ?case by (simp add: finalize_shelf_total)
qed

lemma usage_sum_via_rows:
  "usage_sum G u = (\<Sum>(s, rs)\<leftarrow>map (\<lambda>(s, su). (s, su_rows su)) u. \<Sum>(r, ru)\<leftarrow>rs. G ru)"
  by (simp add: usage_sum_def o_def split_def)

lemma usage_sum_rows_eq:
  "map (\<lambda>(s, su). (s, su_rows su)) u' = map (\<lambda>(s, su). (s, su_rows su)) u \<Longrightarrow> usage_sum G u' = usage_sum G u"
  by (simp only: usage_sum_via_rows)

lemma usage_sum_init: "G \<lparr>ru_width = 0, ru_items = []\<rparr> = 0 \<Longrightarrow> usage_sum G init_usage = 0"
  by (simp add: usage_sum_def init_usage_def init_shelf_def split_def o_def)

lemma calculate_usage_sum:
  assumes "calculate_space_usage items cat = Inr u" and "\<And>ru b. G (add_to_row b ru) = G ru + H b"
    and "G \<lparr>ru_width = 0, ru_items = []\<rparr> = 0"
  shows "usage_sum G u = (\<Sum>it\<leftarrow>filter is_book items. H (placed_of it))"
proof -
  from assms(1) obtain u0 where u0: "place_items (categorizer_of cat) init_usage items = Inr u0"
    and fin: "finalize_usage u0 = Inr u"
    by (auto simp: calculate_space_usage_def sbind_eq_Inr)
  from u0 assms(2) have "usage_sum G u0 = usage_sum G init_usage + (\<Sum>it\<leftarrow>filter is_book items. H (placed_of it))"
    by (rule place_items_usage_sum)
  moreover have "usage_sum G u = usage_sum G u0"
    using finalize_usage_rows [OF fin] by (rule usage_sum_rows_eq)
  moreover have "usage_sum G init_usage = 0"
    by (rule usage_sum_init) (simp add: assms(3))
  ultimately show ?thesis by simp
qed

lemma pb_item_placed_of: "pb_item (placed_of it) = it"
  by (simp add: placed_of_def Let_def)

lemma sum_list_singletons: "(\<Sum>x\<leftarrow>xs. {#f x#}) = mset (map f xs)"
  by (induction xs) auto

lemma calculate_space_usage_placed:
  "calculate_space_usage items cat = Inr u \<Longrightarrow> mset (usage_books u) = mset (map placed_of (filter is_book items))"
proof -
  assume calc: "calculate_space_usage items cat = Inr u"
  have "usage_sum (\<lambda>ru. mset (ru_items ru)) u = (\<Sum>it\<leftarrow>filter is_book items. {#placed_of it#})"
    using calc by (rule calculate_usage_sum) (simp_all add: add_to_row_def)
  then show ?thesis by (simp add: mset_usage_books usage_sum_def sum_list_singletons)
qed

text \<open>
  C1. No book is lost or counted twice: when \<open>calculate_space_usage\<close> returns, the
  items placed on all rows of all shelves are, as a multiset, exactly the input items
  whose \<open>item_type\<close> is \<open>book\<close>.
\<close>

theorem calculate_space_usage_books:
  "calculate_space_usage items cat = Inr u \<Longrightarrow> mset (map pb_item (usage_books u)) = mset (filter is_book items)"
proof -
  assume "calculate_space_usage items cat = Inr u"
  then have "mset (usage_books u) = mset (map placed_of (filter is_book items))"
    by (rule calculate_space_usage_placed)
  then have "mset (map pb_item (usage_books u)) = mset (map pb_item (map placed_of (filter is_book items)))"
    by (simp only: mset_map)
  then show ?thesis by (simp add: o_def pb_item_placed_of)
qed

lemma calculate_space_usage_Inr:
  assumes "calculate_space_usage items f = Inr u"
  obtains u0 where "place_items (categorizer_of f) init_usage items = Inr u0"
    and "finalize_usage u0 = Inr u"
  using assms by (auto simp: calculate_space_usage_def sbind_eq_Inr)

text \<open>
  C2. When \<open>calculate_space_usage\<close> returns, the total widths of the shelves add up
  to the sum of the estimated widths of all input books.
\<close>

theorem calculate_space_usage_width:
  assumes "calculate_space_usage items f = Inr u"
  shows "(\<Sum>(s, su)\<leftarrow>u. su_total_width su)
         = (\<Sum>it\<leftarrow>filter is_book items. estimate_book_width (Some (pages_of it)))"
proof -
  obtain u0 where u0: "place_items (categorizer_of f) init_usage items = Inr u0"
    and fin: "finalize_usage u0 = Inr u"
    using assms by (rule calculate_space_usage_Inr)
  have "(\<Sum>(s, su)\<leftarrow>u. su_total_width su) = (\<Sum>(s, su)\<leftarrow>u0. row_total su)"
    using fin by (rule finalize_usage_total)
  also have "\<dots> = usage_sum ru_width u0"
    by (simp add: usage_sum_def row_total_def)
  also have "\<dots> = usage_sum ru_width init_usage + (\<Sum>it\<leftarrow>filter is_book items. pb_width (placed_of it))"
    using u0 by (rule place_items_usage_sum) (simp add: add_to_row_def)
  also have "\<dots> = (\<Sum>it\<leftarrow>filter is_book items. estimate_book_width (Some (pages_of it)))"
    by (simp add: usage_sum_init placed_of_def Let_def)
  finally show ?thesis .
qed

subsection \<open>The shape of the state; when the calculation raises\<close>

lemma update_at_frame:
  assumes "update_at k f kvs = Inr kvs'" and "\<And>v v'. f v = Inr v' \<Longrightarrow> Q v' = Q v"
  shows "map (\<lambda>(k, v). (k, Q v)) kvs' = map (\<lambda>(k, v). (k, Q v)) kvs"
  using assms(1)
proof (induction kvs arbitrary: kvs')
  case Nil
  then show ?case by simp
next
  case (Cons kv kvs)
  obtain k' v where kv: "kv = (k', v)" by (cases kv)
  show ?case
  proof (cases "k = k'")
    case True
    with Cons.prems kv obtain v' where fv: "f v = Inr v'" and "kvs' = (k', v') # kvs"
      by (auto simp: sbind_eq_Inr)
    with assms(2) [OF fv] show ?thesis by (simp add: kv)
  next
    case False
    with Cons.prems kv obtain kvs'' where "update_at k f kvs = Inr kvs''" and "kvs' = (k', v) # kvs''"
      by (auto simp: sbind_eq_Inr)
    with Cons.IH show ?thesis by (simp add: kv)
  qed
qed

lemma usage_shape_via_shape:
  "usage_shape u \<longleftrightarrow>
     list_all2 (\<lambda>(s, q) (s', d). s = s' \<and> q = ([1..<dim_rows d + 1], available_width d))
       (map (\<lambda>(s, su). (s, shelf_shape su)) u) SHELF_DIMENSIONS"
  by (simp add: usage_shape_def shelf_shape_def list_all2_map1 split_def prod_eq_iff)

lemma usage_shape_init: "usage_shape init_usage"
  by (simp add: usage_shape_def init_usage_def init_shelf_def SHELF_DIMENSIONS_def o_def)

lemma list_all2_map_of:
  "list_all2 (\<lambda>(s, x) (s', y). s = s' \<and> P x y) xs ys \<Longrightarrow> map_of ys k = Some y \<Longrightarrow>
   \<exists>x. map_of xs k = Some x \<and> P x y"
  by (induction xs ys rule: list_all2_induct) auto

lemma usage_shape_lookup:
  assumes "usage_shape u" and "valid_slot (s, r)"
  shows "\<exists>su. map_of u s = Some su \<and> r \<in> fst ` set (su_rows su)"
proof -
  from assms(2) obtain d where d: "map_of SHELF_DIMENSIONS s = Some d" and r: "1 \<le> r" "r \<le> dim_rows d"
    by (auto simp: valid_slot_def split: option.splits)
  have "list_all2 (\<lambda>(s, su) (s', d). s = s' \<and> (map fst (su_rows su) = [1..<dim_rows d + 1]
                                  \<and> su_available_width su = available_width d)) u SHELF_DIMENSIONS"
    using assms(1) by (simp add: usage_shape_def)
  from list_all2_map_of [OF this d] obtain su where "map_of u s = Some su"
    and "map fst (su_rows su) = [1..<dim_rows d + 1]"
    by blast
  with r show ?thesis by (metis atLeastLessThan_iff le_imp_less_Suc list.set_map set_upt Suc_eq_plus1)
qed

lemma add_book_Inr:
  assumes "usage_shape u" and "valid_slot sl"
  shows "\<exists>u'. add_book sl b u = Inr u'"
proof -
  obtain s r where sl: "sl = (s, r)" by (cases sl)
  let ?F = "\<lambda>su. sbind (update_at r (\<lambda>ru. Inr (add_to_row b ru)) (su_rows su))
                      (\<lambda>rs. Inr (su\<lparr>su_rows := rs\<rparr>))"
  from usage_shape_lookup [OF assms(1)] assms(2) sl obtain su where su: "map_of u s = Some su"
    and r: "r \<in> fst ` set (su_rows su)"
    by blast
  from r have "map_of (su_rows su) r \<noteq> None"
    by (simp add: map_of_eq_None_iff)
  then have "\<exists>rs. update_at r (\<lambda>ru. Inr (add_to_row b ru)) (su_rows su) = Inr rs"
    by (auto simp: update_at_Inr_iff)
  then have "\<exists>su'. ?F su = Inr su'"
    by auto
  with su have "\<exists>v v'. map_of u s = Some v \<and> ?F v = Inr v'"
    by blast
  then have "\<exists>u'. update_at s ?F u = Inr u'"
    by (simp only: update_at_Inr_iff)
  then show ?thesis
    by (simp add: add_book_def sl)
qed

lemma add_book_shape:
  assumes "add_book sl b u = Inr u'"
  shows "map (\<lambda>(s, su). (s, shelf_shape su)) u' = map (\<lambda>(s, su). (s, shelf_shape su)) u"
  using assms unfolding add_book_def
proof (rule update_at_frame)
  fix su su' :: shelf_usage
  assume "sbind (update_at (snd sl) (\<lambda>ru. Inr (add_to_row b ru)) (su_rows su))
            (\<lambda>rs. Inr (su\<lparr>su_rows := rs\<rparr>)) = Inr su'"
  then obtain rs where "update_at (snd sl) (\<lambda>ru. Inr (add_to_row b ru)) (su_rows su) = Inr rs"
    and "su' = su\<lparr>su_rows := rs\<rparr>"
    by (auto simp: sbind_eq_Inr)
  then show "shelf_shape su' = shelf_shape su"
    by (simp add: shelf_shape_def update_at_keys)
qed

lemma add_book_usage_shape: "add_book sl b u = Inr u' \<Longrightarrow> usage_shape u' \<longleftrightarrow> usage_shape u"
  by (simp add: usage_shape_via_shape add_book_shape)


lemma place_item_cases:
  assumes "place_item cat u it = Inr u'"
  obtains (other) "u' = u" | (book) sl where "add_book sl (placed_of it) u = Inr u'"
    and "categorize_item cat it = Inr sl"
  using assms by (auto simp: place_item_def sbind_eq_Inr split: if_splits)

lemma place_item_usage_shape: "place_item cat u it = Inr u' \<Longrightarrow> usage_shape u' \<longleftrightarrow> usage_shape u"
  by (erule place_item_cases) (simp_all add: add_book_usage_shape)

lemma place_item_Inr_iff:
  assumes "usage_shape u" and "categorizer_ok cat"
  shows "(\<exists>u'. place_item cat u it = Inr u') \<longleftrightarrow> item_ok cat it"
proof (cases "map_of it ''item_type''")
  case None
  then show ?thesis by (simp add: place_item_def row_index_def item_ok_def)
next
  case (Some ty)
  then have ri: "row_index it ''item_type'' = Inr ty" and bk: "is_book it \<longleftrightarrow> ty = Some ''book''"
    by (simp_all add: row_index_def is_book_def row_get_def)
  show ?thesis
  proof (cases "ty = Some ''book''")
    case True
    show ?thesis
    proof (cases "categorize_item cat it")
      case (Inl e)
      with ri True bk show ?thesis by (simp add: place_item_def item_ok_def raises_def)
    next
      case (Inr sl)
      with assms(2) have "valid_slot sl"
        unfolding categorizer_ok_def categorize_item_def by blast
      with assms(1) have "\<exists>u'. add_book sl (placed_of it) u = Inr u'"
        by (rule add_book_Inr)
      with ri True bk Inr Some show ?thesis by (simp add: place_item_def item_ok_def raises_def)
    qed
  next
    case False
    with ri bk Some show ?thesis by (simp add: place_item_def item_ok_def)
  qed
qed

lemma place_items_Inr_iff:
  assumes "usage_shape u" and "categorizer_ok cat"
  shows "(\<exists>u'. place_items cat u items = Inr u') \<longleftrightarrow> list_all (item_ok cat) items"
  using assms(1)
proof (induction items arbitrary: u)
  case Nil
  then show ?case by simp
next
  case (Cons it items)
  show ?case
  proof (cases "place_item cat u it")
    case (Inl e)
    with place_item_Inr_iff [OF Cons.prems assms(2), of it] show ?thesis by simp
  next
    case (Inr u1)
    with place_item_Inr_iff [OF Cons.prems assms(2), of it] have ok: "item_ok cat it" by blast
    from Inr Cons.prems have "usage_shape u1" by (simp add: place_item_usage_shape)
    with Cons.IH Inr ok show ?thesis by simp
  qed
qed

lemma place_items_usage_shape:
  "place_items cat u items = Inr u' \<Longrightarrow> usage_shape u \<Longrightarrow> usage_shape u'"
proof (induction items arbitrary: u)
  case Nil
  then show ?case by simp
next
  case (Cons it items)
  then obtain u1 where "place_item cat u it = Inr u1" and "place_items cat u1 items = Inr u'"
    by (auto simp: sbind_eq_Inr)
  with Cons show ?case by (simp add: place_item_usage_shape)
qed

lemma finalize_usage_Inr_iff:
  "(\<exists>u'. finalize_usage u = Inr u') \<longleftrightarrow> list_all (\<lambda>(s, su). su_available_width su \<noteq> 0) u"
proof (induction u rule: finalize_usage.induct)
  case 1
  then show ?case by simp
next
  case (2 s su u)
  show ?case
  proof (cases "su_available_width su = 0")
    case True
    then show ?thesis by (simp add: finalize_shelf_def)
  next
    case False
    with "2.IH" show ?thesis
      by (cases "finalize_usage u") (simp_all add: finalize_shelf_def)
  qed
qed

lemma list_all2_list_all:
  "list_all2 P xs ys \<Longrightarrow> (\<And>x y. P x y \<Longrightarrow> y \<in> set ys \<Longrightarrow> R x) \<Longrightarrow> list_all R xs"
  by (induction xs ys rule: list_all2_induct) auto

lemma usage_shape_available:
  "usage_shape u \<Longrightarrow> list_all (\<lambda>(s, su). su_available_width su \<noteq> 0) u"
  unfolding usage_shape_def
  by (erule list_all2_list_all) (auto dest: available_width_pos)

lemma finalize_shelf_shape: "finalize_shelf su = Inr su' \<Longrightarrow> shelf_shape su' = shelf_shape su"
  by (auto simp: finalize_shelf_def shelf_shape_def split: if_splits)

lemma finalize_usage_shapes:
  "finalize_usage u = Inr u' \<Longrightarrow>
   map (\<lambda>(s, su). (s, shelf_shape su)) u' = map (\<lambda>(s, su). (s, shelf_shape su)) u"
proof (induction u arbitrary: u' rule: finalize_usage.induct)
  case 1
  then show ?case by simp
next
  case (2 s su u)
  from "2.prems" obtain su' v where "finalize_shelf su = Inr su'" "finalize_usage u = Inr v"
    and "u' = (s, su') # v"
    by (rule finalize_usage_Cons)
  with "2.IH" show ?case by (simp add: finalize_shelf_shape)
qed

lemma calculate_space_usage_shape: "calculate_space_usage items f = Inr u \<Longrightarrow> usage_shape u"
proof -
  assume "calculate_space_usage items f = Inr u"
  then obtain u0 where u0: "place_items (categorizer_of f) init_usage items = Inr u0"
    and fin: "finalize_usage u0 = Inr u"
    by (rule calculate_space_usage_Inr)
  from u0 usage_shape_init have "usage_shape u0" by (rule place_items_usage_shape)
  then show "usage_shape u"
    by (simp only: usage_shape_via_shape finalize_usage_shapes [OF fin])
qed

lemma calculate_space_usage_Inr_iff:
  assumes "categorizer_ok (categorizer_of f)"
  shows "(\<exists>u. calculate_space_usage items f = Inr u) \<longleftrightarrow> list_all (item_ok (categorizer_of f)) items"
proof
  assume "\<exists>u. calculate_space_usage items f = Inr u"
  then obtain u where "calculate_space_usage items f = Inr u" ..
  then obtain u0 where "place_items (categorizer_of f) init_usage items = Inr u0"
    by (rule calculate_space_usage_Inr)
  then show "list_all (item_ok (categorizer_of f)) items"
    using place_items_Inr_iff [OF usage_shape_init assms] by blast
next
  assume "list_all (item_ok (categorizer_of f)) items"
  then obtain u0 where u0: "place_items (categorizer_of f) init_usage items = Inr u0"
    using place_items_Inr_iff [OF usage_shape_init assms] by blast
  then have "usage_shape u0" using usage_shape_init by (rule place_items_usage_shape)
  then obtain u where "finalize_usage u0 = Inr u"
    using finalize_usage_Inr_iff usage_shape_available by blast
  with u0 show "\<exists>u. calculate_space_usage items f = Inr u"
    by (simp add: calculate_space_usage_def)
qed
lemma raises_categorize_book: "raises (categorize_book t g gr d) \<longleftrightarrow> t = None"
  by (cases t) (simp_all add: categorize_book_def combined_text_def raises_def)

lemma item_ok_default:
  "item_ok (categorizer_of None) it \<longleftrightarrow>
     map_of it ''item_type'' \<noteq> None \<and> (is_book it \<longrightarrow> map_of it ''title'' \<noteq> Some None)"
  by (auto simp: item_ok_def categorizer_of_def categorize_item_def raises_categorize_book row_get_def
      split: option.splits)

text \<open>
  C3. With the default categorizer, \<open>calculate_space_usage\<close> raises exactly when some
  item has no \<open>item_type\<close> key (\<open>KeyError\<close>) or some book's title cell is
  \<open>None\<close> (\<open>AttributeError\<close> from \<open>title.lower()\<close>); it never raises for an
  unknown shelf slot or a zero shelf width.
\<close>

theorem calculate_space_usage_error_conditions:
  "(\<exists>u. calculate_space_usage items None = Inr u) \<longleftrightarrow>
     list_all (\<lambda>it. map_of it ''item_type'' \<noteq> None \<and> (is_book it \<longrightarrow> map_of it ''title'' \<noteq> Some None)) items"
proof -
  have "categorizer_ok (categorizer_of None)"
    by (simp add: categorizer_of_def categorizer_ok_categorize_book)
  moreover have "item_ok (categorizer_of None) =
      (\<lambda>it. map_of it ''item_type'' \<noteq> None \<and> (is_book it \<longrightarrow> map_of it ''title'' \<noteq> Some None))"
    by (rule ext) (rule item_ok_default)
  ultimately show ?thesis
    by (simp only: calculate_space_usage_Inr_iff)
qed

end
