(* ===== verification/Ingest.thy ===== *)
theory Ingest
  imports Prelude
begin

text \<open>
  \<open>parse_csv_file\<close> of \<open>generate_organization.py\<close>. The file system and the CSV
  reader are not modelled: a source file is given as what \<open>csv.DictReader\<close> yields
  from it, the rows read before the reader stopped and the exception that stopped it, if
  one did (an \<open>open\<close> failure is an exception with no rows). The loop appends the rows
  of a recognised kind; the \<open>except\<close> clause after the loop catches the exception, and
  the items collected so far are returned.
\<close>

record csv_source =
  src_rows :: "row list"
  src_error :: "py_error option"

definition recognized_kinds :: "string list" where
  "recognized_kinds = [''book'', ''videogame'', ''music'']"

definition recognized :: "row \<Rightarrow> bool" where
  \<comment> \<open>\<open>row.get('item_type') in ['book', 'videogame', 'music']\<close>\<close>
  "recognized r = (case row_get r ''item_type'' None of
                     None \<Rightarrow> False
                   | Some k \<Rightarrow> k \<in> set recognized_kinds)"

fun collect_items :: "row list \<Rightarrow> row list \<Rightarrow> row list" where
  \<comment> \<open>\<open>for row in reader: if ...: items.append(row)\<close>\<close>
  "collect_items items [] = items"
| "collect_items items (r # rs) = collect_items (if recognized r then items @ [r] else items) rs"

definition parse_csv_file :: "csv_source \<Rightarrow> row list" where
  \<comment> \<open>the exception, if any, is printed and swallowed; \<open>items\<close> is returned either way\<close>
  "parse_csv_file src = collect_items [] (src_rows src)"

definition read_all_files :: "csv_source list \<Rightarrow> row list" where
  \<comment> \<open>\<open>all_items.extend(parse_csv_file(csv_file))\<close> for each discovered file, in order\<close>
  "read_all_files files = concat (map parse_csv_file files)"

section \<open>Lemmas\<close>

lemma collect_items_filter: "collect_items items rs = items @ filter recognized rs"
  by (induction rs arbitrary: items) auto

lemma parse_csv_file_filter: "parse_csv_file src = filter recognized (src_rows src)"
  by (simp add: parse_csv_file_def collect_items_filter)

lemma recognized_has_type: "recognized r \<Longrightarrow> \<exists>k. map_of r ''item_type'' = Some (Some k)"
  by (auto simp: recognized_def row_get_def split: option.splits)

lemma read_all_files_recognized: "it \<in> set (read_all_files files) \<Longrightarrow> recognized it"
  by (auto simp: read_all_files_def parse_csv_file_filter)

section \<open>Properties\<close>

text \<open>
  C10. \<open>parse_csv_file\<close> returns the rows of a recognised kind among those the reader
  yielded, in file order, whether or not the reader then raised: a file that fails
  midway still contributes the rows read before the failure.
\<close>

theorem parse_csv_file_keeps_rows_before_error:
  "parse_csv_file \<lparr>src_rows = rs, src_error = err\<rparr> = filter recognized rs"
  by (simp add: parse_csv_file_filter)

end
