(* ===== verification/Organizer.thy ===== *)
theory Organizer
  imports Space Ingest
begin

text \<open>
  How \<open>main\<close> of \<open>generate_organization.py\<close> composes the components: the items of
  all files (\<open>read_all_files\<close>), the books among them (\<open>select_books\<close>, whose
  \<open>item['item_type']\<close> could raise \<open>KeyError\<close>), and \<open>iterative_balance\<close>, which
  runs \<open>calculate_space_usage\<close> once with \<open>balanced_categorize_book\<close> and reports
  one iteration whatever \<open>max_iterations\<close> is. Printing is not modelled.
\<close>

definition balanced_categorizer :: categorizer where
  \<comment> \<open>\<open>balanced_categorize_book\<close> as a categorizer (it ignores the item argument)\<close>
  "balanced_categorizer = (\<lambda>t g gr d item. balanced_categorize_book t g gr d)"

definition iterative_balance :: "row list \<Rightarrow> nat \<Rightarrow> py_error + (space_usage \<times> nat)" where
  "iterative_balance items max_iterations =
     sbind (calculate_space_usage items (Some balanced_categorizer)) (\<lambda>u. Inr (u, 1))"

fun select_books :: "row list \<Rightarrow> py_error + row list" where
  \<comment> \<open>\<open>[item for item in all_items if item['item_type'] == 'book']\<close>\<close>
  "select_books [] = Inr []"
| "select_books (it # its) =
     sbind (row_index it ''item_type'')
       (\<lambda>ty. sbind (select_books its) (\<lambda>bs. Inr (if ty = Some ''book'' then it # bs else bs)))"

definition organize :: "csv_source list \<Rightarrow> py_error + (row list \<times> space_usage)" where
  \<comment> \<open>\<open>main\<close> up to the HTML generation: all items and the balanced space usage\<close>
  "organize files =
     (let all_items = read_all_files files
      in sbind (select_books all_items)
           (\<lambda>books. sbind (iterative_balance books 10) (\<lambda>(u, n). Inr (all_items, u))))"

section \<open>Lemmas\<close>

lemma categorizer_ok_balanced_categorizer: "categorizer_ok balanced_categorizer"
  unfolding balanced_categorizer_def by (rule categorizer_ok_balanced)

lemma select_books_filter:
  "list_all (\<lambda>it. map_of it ''item_type'' \<noteq> None) items \<Longrightarrow> select_books items = Inr (filter is_book items)"
  by (induction items) (auto simp: row_index_def is_book_def row_get_def)

lemma select_books_read_all_files: "select_books (read_all_files files) = Inr (filter is_book (read_all_files files))"
proof (rule select_books_filter)
  show "list_all (\<lambda>it. map_of it ''item_type'' \<noteq> None) (read_all_files files)"
    by (auto simp: list_all_iff dest!: read_all_files_recognized recognized_has_type)
qed

lemma raises_balanced_categorize_book: "raises (balanced_categorize_book t g gr d) \<longleftrightarrow> t = None"
  by (cases t) (simp_all add: balanced_categorize_book_def combined_text_def raises_def)

lemma item_ok_balanced:
  "is_book it \<Longrightarrow> item_ok balanced_categorizer it \<longleftrightarrow> map_of it ''title'' \<noteq> Some None"
  by (auto simp: item_ok_def balanced_categorizer_def categorize_item_def raises_balanced_categorize_book
      row_get_def is_book_def split: option.splits)

lemma organize_Inr:
  "organize files = Inr r \<longleftrightarrow>
     (\<exists>u. calculate_space_usage (filter is_book (read_all_files files)) (Some balanced_categorizer) = Inr u
          \<and> r = (read_all_files files, u))"
  by (auto simp: organize_def Let_def select_books_read_all_files iterative_balance_def sbind_eq_Inr)

lemma list_all_item_ok_books:
  "list_all (item_ok balanced_categorizer) (filter is_book xs) \<longleftrightarrow>
     list_all (\<lambda>it. is_book it \<longrightarrow> map_of it ''title'' \<noteq> Some None) xs"
  by (induction xs) (auto simp: item_ok_balanced)

lemma organize_succeeds_iff:
  "(\<exists>r. organize files = Inr r) \<longleftrightarrow>
     list_all (\<lambda>it. is_book it \<longrightarrow> map_of it ''title'' \<noteq> Some None) (read_all_files files)"
proof -
  have ok: "categorizer_ok (categorizer_of (Some balanced_categorizer))"
    by (simp add: categorizer_of_def categorizer_ok_balanced_categorizer)
  have "(\<exists>r. organize files = Inr r) \<longleftrightarrow>
        (\<exists>u. calculate_space_usage (filter is_book (read_all_files files)) (Some balanced_categorizer) = Inr u)"
    by (auto simp: organize_Inr)
  also have "\<dots> \<longleftrightarrow> list_all (item_ok balanced_categorizer) (filter is_book (read_all_files files))"
    using calculate_space_usage_Inr_iff [OF ok] by (simp add: categorizer_of_def)
  finally show ?thesis by (simp only: list_all_item_ok_books)
qed

lemma organize_placed:
  assumes "organize files = Inr (all_items, u)"
  shows "all_items = read_all_files files \<and> usage_shape u
         \<and> mset (usage_books u) = mset (map placed_of (filter is_book all_items))"
proof -
  from assms have all: "all_items = read_all_files files"
    and calc: "calculate_space_usage (filter is_book all_items) (Some balanced_categorizer) = Inr u"
    by (auto simp: organize_Inr)
  from calc have "mset (usage_books u) = mset (map placed_of (filter is_book (filter is_book all_items)))"
    by (rule calculate_space_usage_placed)
  with all calc show ?thesis by (simp add: calculate_space_usage_shape)
qed

section \<open>Properties\<close>

text \<open>
  C12. End to end, the books \<open>main\<close> places on the shelves are, as a multiset,
  exactly the rows of kind \<open>book\<close> that the files yielded.
\<close>

theorem organize_places_every_book:
  "organize files = Inr (all_items, u) \<Longrightarrow>
   all_items = read_all_files files \<and> mset (map pb_item (usage_books u)) = mset (filter is_book all_items)"
proof -
  assume "organize files = Inr (all_items, u)"
  then have all: "all_items = read_all_files files"
    and "mset (usage_books u) = mset (map placed_of (filter is_book all_items))"
    by (auto dest: organize_placed)
  then have "mset (map pb_item (usage_books u)) = mset (map pb_item (map placed_of (filter is_book all_items)))"
    by (simp only: mset_map)
  with all show ?thesis by (simp add: o_def pb_item_placed_of)
qed

end
