(* ===== verification/Report.thy ===== *)
theory Report
  imports Organizer "HOL-Library.List_Lexorder" "HOL-Library.Char_ord"
begin

text \<open>
  \<open>generate_html\<close> of \<open>generate_organization.py\<close>, and \<open>main\<close> up to the file write.
  The report is modelled by its content, in the order the code emits it: the summary
  counts, one utilisation banner per shelf of \<open>ORGANIZATION\<close>, then for each shelf a
  header, for each of its rows a row header and one table row per book, sorted by title.
  Each piece carries the values the template prints; the fixed HTML and CSS text and the
  decimal formatting of floats are not modelled, the escaping of user text is. Every
  exception the code can raise is a value: \<open>KeyError\<close> from \<open>item['item_type']\<close>
  and \<open>SHELF_DIMENSIONS[shelf_id]\<close>, \<open>TypeError\<close> from comparing a \<open>None\<close> title
  while sorting, \<open>AttributeError\<close> from escaping a \<open>None\<close> cell.
\<close>

section \<open>Text\<close>

definition html_escape_char :: "char \<Rightarrow> string" where
  \<comment> \<open>\<open>html.escape(s, quote=True)\<close>, one character\<close>
  "html_escape_char c =
     (if c = CHR ''&'' then ''&amp;''
      else if c = CHR ''<'' then ''&lt;''
      else if c = CHR ''>'' then ''&gt;''
      else if c = CHR 0x22 then ''&quot;''
      else if c = CHR 0x27 then ''&#x27;''
      else [c])"

definition html_escape :: "string \<Rightarrow> string" where
  "html_escape s = concat (map html_escape_char s)"

fun upper_char :: "char \<Rightarrow> char" where
  "upper_char (Char b0 b1 b2 b3 b4 b5 b6 b7) =
     (if 97 \<le> (of_char (Char b0 b1 b2 b3 b4 b5 b6 b7) :: nat)
         \<and> (of_char (Char b0 b1 b2 b3 b4 b5 b6 b7) :: nat) \<le> 122
      then Char b0 b1 b2 b3 b4 False b6 b7
      else Char b0 b1 b2 b3 b4 b5 b6 b7)"

definition is_cased :: "char \<Rightarrow> bool" where
  "is_cased c = (lower_char c \<noteq> c \<or> upper_char c \<noteq> c)"

fun title_from :: "bool \<Rightarrow> string \<Rightarrow> string" where
  \<comment> \<open>\<open>str.title()\<close>: a letter after a letter is lowered, any other letter raised\<close>
  "title_from prev [] = []"
| "title_from prev (c # cs) =
     (if is_cased c then (if prev then lower_char c else upper_char c) # title_from True cs
      else c # title_from False cs)"

definition display_name :: "string \<Rightarrow> string" where
  \<comment> \<open>\<open>shelf_id.replace('_', ' ').title()\<close>\<close>
  "display_name s = title_from False (map (\<lambda>c. if c = CHR ''_'' then CHR '' '' else c) s)"

section \<open>The pieces of the report\<close>

datatype capacity_band = Over_capacity | Near_capacity | Good_capacity

datatype report_piece =
    Summary nat nat nat
  | SpaceInfo string capacity_band rat rat nat
  | ShelfHeader string nat nat nat rat
  | RowHeader nat string rat nat
  | BookRow string string string rat
  | ShelfEnd

definition capacity_status :: "rat \<Rightarrow> capacity_band" where
  "capacity_status utilization =
     (if utilization > 90 then Over_capacity
      else if utilization > 75 then Near_capacity
      else Good_capacity)"

definition status_class :: "capacity_band \<Rightarrow> string" where
  "status_class b = (case b of
       Over_capacity \<Rightarrow> ''over-capacity''
     | Near_capacity \<Rightarrow> ''near-capacity''
     | Good_capacity \<Rightarrow> ''good-capacity'')"

definition count_kind :: "row list \<Rightarrow> string \<Rightarrow> py_error + nat" where
  \<comment> \<open>\<open>len([item for item in all_items if item['item_type'] == kind])\<close>\<close>
  "count_kind items kind =
     sbind (smap (\<lambda>it. row_index it ''item_type'') items)
       (\<lambda>tys. Inr (length (filter (\<lambda>ty. ty = Some kind) tys)))"

definition utilization_of :: "shelf_usage option \<Rightarrow> rat" where
  \<comment> \<open>\<open>space_usage.get(shelf_id, {}).get('utilization', 0)\<close>\<close>
  "utilization_of us = (case us of None \<Rightarrow> 0 | Some su \<Rightarrow> su_utilization su)"

definition total_width_of :: "shelf_usage option \<Rightarrow> rat" where
  "total_width_of us = (case us of None \<Rightarrow> 0 | Some su \<Rightarrow> su_total_width su)"

definition row_of :: "shelf_usage option \<Rightarrow> nat \<Rightarrow> row_usage option" where
  \<comment> \<open>\<open>usage.get('rows', {}).get(row_num, {})\<close>\<close>
  "row_of us r = (case us of None \<Rightarrow> None | Some su \<Rightarrow> map_of (su_rows su) r)"

definition row_books_of :: "row_usage option \<Rightarrow> placed_book list" where
  "row_books_of ru = (case ru of None \<Rightarrow> [] | Some x \<Rightarrow> ru_items x)"

definition row_width_of :: "row_usage option \<Rightarrow> rat" where
  "row_width_of ru = (case ru of None \<Rightarrow> 0 | Some x \<Rightarrow> ru_width x)"

definition space_info :: "space_usage \<Rightarrow> string \<times> (nat \<times> string) list \<Rightarrow> py_error + report_piece" where
  "space_info u sr =
     (let us = map_of u (fst sr); util = utilization_of us
      in case map_of SHELF_DIMENSIONS (fst sr) of
           None \<Rightarrow> Inl KeyError
         | Some d \<Rightarrow> Inr (SpaceInfo (display_name (fst sr)) (capacity_status util) util
                                   (total_width_of us) (dim_width d * dim_rows d)))"

definition escape_cell :: "cell \<Rightarrow> py_error + string" where
  \<comment> \<open>\<open>html.escape(x)\<close>: \<open>None\<close> has no \<open>replace\<close> and raises \<open>AttributeError\<close>\<close>
  "escape_cell v = (case v of None \<Rightarrow> Inl AttributeError | Some s \<Rightarrow> Inr (html_escape s))"

definition pages_text :: "int \<Rightarrow> string" where
  "pages_text p = (if p > 0 then py_str_int p else ''Unknown'')"

definition book_row :: "placed_book \<Rightarrow> py_error + report_piece" where
  "book_row b =
     sbind (escape_cell (pb_title b))
       (\<lambda>t. sbind (escape_cell (pb_author b))
              (\<lambda>a. Inr (BookRow t a (pages_text (pb_pages b)) (pb_width b))))"

definition title_key :: "placed_book \<Rightarrow> string" where
  "title_key b = (case pb_title b of None \<Rightarrow> [] | Some t \<Rightarrow> t)"

definition sort_by_title :: "placed_book list \<Rightarrow> py_error + placed_book list" where
  \<comment> \<open>\<open>sorted(row_books, key=lambda x: x['title'])\<close>: a stable sort; with two or more
      books a \<open>None\<close> title is compared with something and raises \<open>TypeError\<close>\<close>
  "sort_by_title bs =
     (if 2 \<le> length bs \<and> list_ex (\<lambda>b. pb_title b = None) bs then Inl TypeError
      else Inr (sort_key title_key bs))"

definition row_section :: "shelf_usage option \<Rightarrow> nat \<times> string \<Rightarrow> py_error + report_piece list" where
  "row_section us rn =
     (let ru = row_of us (fst rn); bs = row_books_of ru
      in sbind (sort_by_title bs)
           (\<lambda>sorted. sbind (smap book_row sorted)
              (\<lambda>rows. Inr (RowHeader (fst rn) (snd rn) (row_width_of ru) (length bs) # rows))))"

definition shelf_section :: "space_usage \<Rightarrow> string \<times> (nat \<times> string) list \<Rightarrow> py_error + report_piece list" where
  "shelf_section u sr =
     (case map_of SHELF_DIMENSIONS (fst sr) of
        None \<Rightarrow> Inl KeyError
      | Some d \<Rightarrow>
          (let us = map_of u (fst sr)
           in sbind (smap (row_section us) (snd sr))
                (\<lambda>rss. Inr (ShelfHeader (display_name (fst sr)) (dim_width d) (dim_depth d) (dim_rows d)
                                         (utilization_of us) # concat rss @ [ShelfEnd]))))"

definition generate_html :: "row list \<Rightarrow> space_usage \<Rightarrow> py_error + report_piece list" where
  "generate_html all_items u =
     sbind (count_kind all_items ''book'') (\<lambda>n_books.
     sbind (count_kind all_items ''videogame'') (\<lambda>n_games.
     sbind (count_kind all_items ''music'') (\<lambda>n_music.
     sbind (smap (space_info u) ORGANIZATION) (\<lambda>infos.
     sbind (select_books all_items) (\<lambda>books.
     sbind (smap (shelf_section u) ORGANIZATION) (\<lambda>sections.
       Inr (Summary n_books n_games n_music # infos @ concat sections)))))))"

definition organizer_main :: "csv_source list \<Rightarrow> py_error + report_piece list" where
  \<comment> \<open>\<open>main\<close>: the pipeline, then \<open>generate_html\<close>; the result is what is written\<close>
  "organizer_main files = sbind (organize files) (\<lambda>(all_items, u). generate_html all_items u)"

definition is_book_row :: "report_piece \<Rightarrow> bool" where
  "is_book_row p = (case p of BookRow t a pg w \<Rightarrow> True | _ \<Rightarrow> False)"

section \<open>Views used by the proofs\<close>

fun entity_decode :: "string \<Rightarrow> string" where
  "entity_decode [] = []"
| "entity_decode (c # cs) =
     (if c = CHR ''&'' then
        (if starts_with ''amp;'' cs then CHR ''&'' # entity_decode (drop 4 cs)
         else if starts_with ''lt;'' cs then CHR ''<'' # entity_decode (drop 3 cs)
         else if starts_with ''gt;'' cs then CHR ''>'' # entity_decode (drop 3 cs)
         else if starts_with ''quot;'' cs then CHR 0x22 # entity_decode (drop 5 cs)
         else if starts_with ''#x27;'' cs then CHR 0x27 # entity_decode (drop 5 cs)
         else c # entity_decode cs)
      else c # entity_decode cs)"

definition org_books :: "space_usage \<Rightarrow> placed_book list" where
  "org_books u = concat (map (\<lambda>(s, rows). concat (map (\<lambda>(r, name). row_books_of (row_of (map_of u s) r)) rows)) ORGANIZATION)"

definition section_books :: "space_usage \<Rightarrow> string \<times> (nat \<times> string) list \<Rightarrow> placed_book list" where
  "section_books u sr = concat (map (\<lambda>(r, name). row_books_of (row_of (map_of u (fst sr)) r)) (snd sr))"

abbreviation rendered :: "placed_book \<Rightarrow> report_piece" where
  "rendered b \<equiv> projr (book_row b)"

section \<open>Lemmas\<close>

subsection \<open>Escaping\<close>

lemma html_escape_Cons: "html_escape (c # s) = html_escape_char c @ html_escape s"
  by (simp add: html_escape_def)

lemma entity_decode_escape: "entity_decode (html_escape s) = s"
proof (induction s)
  case Nil
  then show ?case by (simp add: html_escape_def)
next
  case (Cons c s)
  show ?case
    using Cons.IH by (simp add: html_escape_Cons html_escape_char_def)
qed

lemma html_escape_char_safe:
  "set (html_escape_char c) \<inter> {CHR ''<'', CHR ''>'', CHR 0x22, CHR 0x27} = {}"
  by (simp add: html_escape_char_def)

lemma html_escape_safe:
  "set (html_escape s) \<inter> {CHR ''<'', CHR ''>'', CHR 0x22, CHR 0x27} = {}"
  using html_escape_char_safe by (auto simp: html_escape_def)

lemma book_row_BookRow:
  "book_row b = Inr (BookRow t a pg w) \<Longrightarrow>
   \<exists>x y. pb_title b = Some x \<and> pb_author b = Some y \<and> t = html_escape x \<and> a = html_escape y"
  by (auto simp: book_row_def escape_cell_def sbind_eq_Inr split: option.splits)

subsection \<open>Utilisation\<close>

lemma finalize_shelf_utilization:
  "finalize_shelf su = Inr su' \<Longrightarrow>
   su_utilization su' = row_total su * 100 / of_nat (su_available_width su) \<and> su_available_width su \<noteq> 0"
  by (auto simp: finalize_shelf_def split: if_splits)

lemma capacity_over_iff: "capacity_status u = Over_capacity \<longleftrightarrow> 90 < u"
  by (simp add: capacity_status_def)

subsection \<open>The books of the report\<close>

lemma map_of_map_fst:
  "distinct (map fst xs) \<Longrightarrow> map (map_of xs) (map fst xs) = map (\<lambda>(k, v). Some v) xs"
proof (induction xs)
  case Nil
  then show ?case by simp
next
  case (Cons x xs)
  obtain k v where x: "x = (k, v)" by (cases x)
  with Cons.prems have k: "k \<notin> set (map fst xs)" and d: "distinct (map fst xs)" by auto
  have "map (map_of (x # xs)) (map fst xs) = map (map_of xs) (map fst xs)"
    using k by (auto simp: x)
  with Cons.IH [OF d] show ?case by (simp add: x)
qed

lemma rows_books:
  assumes "map fst rows = map fst orows" and "distinct (map fst rows)"
  shows "concat (map (\<lambda>(r, name). row_books_of (map_of rows r)) orows) = concat (map (\<lambda>(r, ru). ru_items ru) rows)"
proof -
  have "map (\<lambda>(r, name). row_books_of (map_of rows r)) orows = map (\<lambda>r. row_books_of (map_of rows r)) (map fst orows)"
    by (simp add: split_def)
  also have "\<dots> = map row_books_of (map (map_of rows) (map fst rows))"
    by (simp add: assms(1))
  also have "\<dots> = map row_books_of (map (\<lambda>(k, v). Some v) rows)"
    by (simp only: map_of_map_fst [OF assms(2)])
  also have "\<dots> = map (\<lambda>(r, ru). ru_items ru) rows"
    by (simp add: row_books_of_def split_def)
  finally show ?thesis by simp
qed

lemma sections_books:
  assumes "list_all2 (\<lambda>(s, su) (s', rows). s = s' \<and> map fst (su_rows su) = map fst rows
                                            \<and> distinct (map fst rows)) u org"
    and "\<And>s su. (s, su) \<in> set u \<Longrightarrow> M s = Some su"
  shows "concat (map (\<lambda>(s, rows). concat (map (\<lambda>(r, name). row_books_of (row_of (M s) r)) rows)) org)
         = usage_books u"
  using assms
proof (induction u org rule: list_all2_induct)
  case Nil
  then show ?case by (simp add: usage_books_def)
next
  case (Cons x xs y ys)
  obtain s su where x: "x = (s, su)" by (cases x)
  obtain s' rows where y: "y = (s', rows)" by (cases y)
  from Cons.hyps(1) x y have ss: "s' = s" and k: "map fst (su_rows su) = map fst rows"
    and d: "distinct (map fst rows)" by auto
  from Cons.prems x have M: "M s = Some su" by simp
  have head: "concat (map (\<lambda>(r, name). row_books_of (row_of (M s) r)) rows)
              = concat (map (\<lambda>(r, ru). ru_items ru) (su_rows su))"
    using rows_books [OF k] k d by (simp add: M row_of_def)
  have tail: "concat (map (\<lambda>(s, rows). concat (map (\<lambda>(r, name). row_books_of (row_of (M s) r)) rows)) ys)
              = usage_books xs"
    using Cons.prems by (intro Cons.IH) auto
  show ?case using head tail by (simp add: x y ss usage_books_def)
qed

lemma org_shelf_shape:
  "list_all2 (\<lambda>(s, d) (s', rows). s = s' \<and> map fst rows = [1..<dim_rows d + 1]) SHELF_DIMENSIONS ORGANIZATION"
  by (simp add: shelf_config upt_rec)

lemma usage_shape_org:
  "usage_shape u \<Longrightarrow>
   list_all2 (\<lambda>(s, su) (s', rows). s = s' \<and> map fst (su_rows su) = map fst rows \<and> distinct (map fst rows)) u ORGANIZATION"
  unfolding usage_shape_def
  by (rule list_all2_trans [OF _ _ org_shelf_shape]) auto

lemma list_all2_fst: "list_all2 (\<lambda>(s, x) (s', y). s = s' \<and> P x y) xs ys \<Longrightarrow> map fst xs = map fst ys"
  by (induction rule: list_all2_induct) auto

lemma usage_shape_keys: "usage_shape u \<Longrightarrow> map fst u = map fst SHELF_DIMENSIONS"
  unfolding usage_shape_def by (rule list_all2_fst)

lemma org_books_usage_books: "usage_shape u \<Longrightarrow> org_books u = usage_books u"
proof -
  assume sh: "usage_shape u"
  then have "distinct (map fst u)" by (simp add: usage_shape_keys distinct_shelf_ids)
  then have "\<And>s su. (s, su) \<in> set u \<Longrightarrow> map_of u s = Some su"
    by (rule map_of_is_SomeI)
  with usage_shape_org [OF sh] show ?thesis
    unfolding org_books_def by (rule sections_books)
qed

lemma smap_concat_mset:
  assumes "smap f xs = Inr ys" and "\<And>x y. f x = Inr y \<Longrightarrow> mset (filter P y) = G x"
  shows "mset (filter P (concat ys)) = (\<Sum>x\<leftarrow>xs. G x)"
  using assms(1)
proof (induction xs arbitrary: ys)
  case Nil
  then show ?case by simp
next
  case (Cons x xs)
  then obtain y ys' where "f x = Inr y" and "smap f xs = Inr ys'" and "ys = y # ys'"
    by (auto simp: sbind_eq_Inr)
  with Cons.IH assms(2) show ?case by simp
qed

lemma smap_list_all:
  "smap f xs = Inr ys \<Longrightarrow> (\<And>x y. f x = Inr y \<Longrightarrow> Q x) \<Longrightarrow> list_all Q xs"
  by (induction xs arbitrary: ys) (auto simp: sbind_eq_Inr)

lemma book_row_is_book_row: "book_row b = Inr p \<Longrightarrow> is_book_row p"
  by (auto simp: book_row_def sbind_eq_Inr is_book_row_def)

lemma sort_by_title_Inr: "sort_by_title bs = Inr bs' \<Longrightarrow> bs' = sort_key title_key bs"
  by (simp add: sort_by_title_def split: if_splits)

lemma row_section_books:
  assumes "row_section us rn = Inr ps"
  shows "mset (filter is_book_row ps) = image_mset rendered (mset (row_books_of (row_of us (fst rn))))
         \<and> list_all (\<lambda>b. \<not> raises (book_row b)) (row_books_of (row_of us (fst rn)))"
proof -
  let ?bs = "row_books_of (row_of us (fst rn))"
  from assms obtain sorted rows where s: "sort_by_title ?bs = Inr sorted"
    and r: "smap book_row sorted = Inr rows"
    and ps: "ps = RowHeader (fst rn) (snd rn) (row_width_of (row_of us (fst rn))) (length ?bs) # rows"
    by (auto simp: row_section_def Let_def sbind_eq_Inr)
  have sorted: "sorted = sort_key title_key ?bs" using s by (rule sort_by_title_Inr)
  have rows: "rows = map rendered sorted" using r by (rule smap_Inr_map)
  have "list_all is_book_row rows"
    using r by (auto simp: smap_Inr_iff list_all2_conv_all_nth list_all_length book_row_is_book_row)
  then have "filter is_book_row ps = rows" by (simp add: ps is_book_row_def list_all_iff)
  moreover have "list_all (\<lambda>b. \<not> raises (book_row b)) sorted"
    using r by (auto simp: smap_Inr_exists [symmetric])
  ultimately show ?thesis
    by (simp add: rows sorted list_all_iff)
qed


lemma image_mset_concat:
  "image_mset h (mset (concat xss)) = (\<Sum>xs\<leftarrow>xss. image_mset h (mset xs))"
  by (induction xss) auto

lemma shelf_section_books:
  assumes "shelf_section u sr = Inr ps"
  shows "mset (filter is_book_row ps) = image_mset rendered (mset (section_books u sr))
         \<and> list_all (\<lambda>b. \<not> raises (book_row b)) (section_books u sr)"
proof -
  let ?us = "map_of u (fst sr)"
  from assms obtain d where d: "map_of SHELF_DIMENSIONS (fst sr) = Some d"
    by (auto simp: shelf_section_def split: option.splits)
  with assms obtain rss where rss: "smap (row_section ?us) (snd sr) = Inr rss"
    and ps: "ps = ShelfHeader (display_name (fst sr)) (dim_width d) (dim_depth d) (dim_rows d)
                    (utilization_of ?us) # concat rss @ [ShelfEnd]"
    by (auto simp: shelf_section_def Let_def sbind_eq_Inr)
  have "mset (filter is_book_row (concat rss))
        = (\<Sum>rn\<leftarrow>snd sr. image_mset rendered (mset (row_books_of (row_of ?us (fst rn)))))"
    using rss by (rule smap_concat_mset) (use row_section_books in blast)
  moreover have "list_all (\<lambda>rn. list_all (\<lambda>b. \<not> raises (book_row b)) (row_books_of (row_of ?us (fst rn)))) (snd sr)"
    using rss by (rule smap_list_all) (use row_section_books in blast)
  ultimately show ?thesis
    by (simp add: ps is_book_row_def section_books_def split_def image_mset_concat
        list_all_iff o_def)
qed

lemma space_info_not_book_row: "space_info u sr = Inr p \<Longrightarrow> \<not> is_book_row p"
  by (auto simp: space_info_def Let_def is_book_row_def split: option.splits)

lemma org_books_sections: "org_books u = concat (map (section_books u) ORGANIZATION)"
  by (simp add: org_books_def section_books_def [abs_def] split_def)

lemma smap_Inr_results:
  "smap f xs = Inr ys \<Longrightarrow> (\<And>x y. f x = Inr y \<Longrightarrow> Q y) \<Longrightarrow> list_all Q ys"
  by (induction xs arbitrary: ys) (auto simp: sbind_eq_Inr)

lemma generate_html_books:
  assumes "generate_html all_items u = Inr pieces"
  shows "mset (filter is_book_row pieces) = image_mset rendered (mset (org_books u))
         \<and> list_all (\<lambda>b. \<not> raises (book_row b)) (org_books u)"
proof -
  from assms obtain infos sections where i: "smap (space_info u) ORGANIZATION = Inr infos"
    and s: "smap (shelf_section u) ORGANIZATION = Inr sections"
    and p: "pieces = Summary (projr (count_kind all_items ''book'')) (projr (count_kind all_items ''videogame''))
                  (projr (count_kind all_items ''music'')) # infos @ concat sections"
    by (auto simp: generate_html_def sbind_eq_Inr)
  have "list_all (\<lambda>p. \<not> is_book_row p) infos"
    using i by (rule smap_Inr_results) (rule space_info_not_book_row)
  then have f: "filter is_book_row pieces = filter is_book_row (concat sections)"
    by (simp add: p is_book_row_def list_all_iff)
  have "mset (filter is_book_row (concat sections)) = (\<Sum>sr\<leftarrow>ORGANIZATION. image_mset rendered (mset (section_books u sr)))"
    using s by (rule smap_concat_mset) (use shelf_section_books in blast)
  moreover have "list_all (\<lambda>sr. list_all (\<lambda>b. \<not> raises (book_row b)) (section_books u sr)) ORGANIZATION"
    using s by (rule smap_list_all) (use shelf_section_books in blast)
  ultimately show ?thesis
    by (simp add: f org_books_sections image_mset_concat o_def list_all_iff)
qed

subsection \<open>When the report is produced\<close>

lemma raises_book_row: "raises (book_row b) \<longleftrightarrow> pb_title b = None \<or> pb_author b = None"
  by (auto simp: book_row_def escape_cell_def raises_def split: option.splits)

lemma book_row_placed_ok:
  "\<not> raises (book_row (placed_of it)) \<longleftrightarrow>
     map_of it ''title'' \<noteq> Some None \<and> map_of it ''creators'' \<noteq> Some None"
  by (auto simp: raises_book_row placed_of_def Let_def row_get_def split: option.splits)

lemma list_all_mset_eq: "mset xs = mset ys \<Longrightarrow> list_all P xs \<longleftrightarrow> list_all P ys"
  unfolding list_all_iff by (drule mset_eq_setD) (rule ball_cong; simp)

lemma row_section_ok:
  assumes "list_all (\<lambda>b. \<not> raises (book_row b)) (row_books_of (row_of us (fst rn)))"
  shows "\<exists>ps. row_section us rn = Inr ps"
proof -
  let ?bs = "row_books_of (row_of us (fst rn))"
  have "list_all (\<lambda>b. pb_title b \<noteq> None) ?bs"
    using assms by (simp add: list_all_iff raises_book_row)
  then have s: "sort_by_title ?bs = Inr (sort_key title_key ?bs)"
    by (auto simp: sort_by_title_def list_ex_iff list_all_iff)
  have "list_all (\<lambda>b. \<not> raises (book_row b)) (sort_key title_key ?bs)"
    using assms by (simp add: list_all_iff)
  then obtain rows where "smap book_row (sort_key title_key ?bs) = Inr rows"
    using smap_Inr_exists by blast
  with s show ?thesis by (simp add: row_section_def Let_def)
qed

lemma org_keys: "map fst ORGANIZATION = map fst SHELF_DIMENSIONS"
  by (simp add: shelf_config)

lemma org_dimensions:
  assumes "sr \<in> set ORGANIZATION"
  obtains d where "map_of SHELF_DIMENSIONS (fst sr) = Some d"
proof -
  have "fst sr \<in> set (map fst SHELF_DIMENSIONS)"
    using assms by (simp only: org_keys [symmetric]) simp
  then have "map_of SHELF_DIMENSIONS (fst sr) \<noteq> None"
    by (simp add: map_of_eq_None_iff)
  then show ?thesis using that by blast
qed

lemma shelf_section_ok:
  assumes "sr \<in> set ORGANIZATION" and "list_all (\<lambda>b. \<not> raises (book_row b)) (section_books u sr)"
  shows "\<exists>ps. shelf_section u sr = Inr ps"
proof -
  obtain d where d: "map_of SHELF_DIMENSIONS (fst sr) = Some d"
    using assms(1) by (rule org_dimensions)
  have "list_all (\<lambda>rn. \<not> raises (row_section (map_of u (fst sr)) rn)) (snd sr)"
    unfolding list_all_iff raises_iff
  proof
    fix rn assume "rn \<in> set (snd sr)"
    then have "list_all (\<lambda>b. \<not> raises (book_row b)) (row_books_of (row_of (map_of u (fst sr)) (fst rn)))"
      using assms(2) by (auto simp: list_all_iff section_books_def split_def)
    then show "\<exists>ps. row_section (map_of u (fst sr)) rn = Inr ps" by (rule row_section_ok)
  qed
  then obtain rss where "smap (row_section (map_of u (fst sr))) (snd sr) = Inr rss"
    using smap_Inr_exists by blast
  with d show ?thesis by (simp add: shelf_section_def)
qed

lemma space_info_ok: "sr \<in> set ORGANIZATION \<Longrightarrow> \<exists>p. space_info u sr = Inr p"
  by (erule org_dimensions) (simp add: space_info_def Let_def)

lemma count_kind_ok:
  "list_all (\<lambda>it. map_of it ''item_type'' \<noteq> None) items \<Longrightarrow> \<exists>n. count_kind items k = Inr n"
proof -
  assume "list_all (\<lambda>it. map_of it ''item_type'' \<noteq> None) items"
  then have "list_all (\<lambda>it. \<not> raises (row_index it ''item_type'')) items"
    by (auto simp: list_all_iff row_index_def raises_def split: option.splits)
  then obtain tys where "smap (\<lambda>it. row_index it ''item_type'') items = Inr tys"
    using smap_Inr_exists by blast
  then show ?thesis by (simp add: count_kind_def)
qed

lemma generate_html_ok:
  assumes "list_all (\<lambda>it. map_of it ''item_type'' \<noteq> None) all_items"
    and "list_all (\<lambda>b. \<not> raises (book_row b)) (org_books u)"
  shows "\<exists>p. generate_html all_items u = Inr p"
proof -
  obtain nb ng nm where "count_kind all_items ''book'' = Inr nb" "count_kind all_items ''videogame'' = Inr ng"
    "count_kind all_items ''music'' = Inr nm"
    using count_kind_ok [OF assms(1)] by blast
  moreover obtain infos where "smap (space_info u) ORGANIZATION = Inr infos"
  proof -
    have "list_all (\<lambda>sr. \<not> raises (space_info u sr)) ORGANIZATION"
      unfolding list_all_iff raises_iff using space_info_ok by blast
    then show ?thesis using that smap_Inr_exists by blast
  qed
  moreover have "select_books all_items = Inr (filter is_book all_items)"
    using assms(1) by (rule select_books_filter)
  moreover obtain sections where "smap (shelf_section u) ORGANIZATION = Inr sections"
  proof -
    have "list_all (\<lambda>sr. \<not> raises (shelf_section u sr)) ORGANIZATION"
      unfolding list_all_iff raises_iff
    proof
      fix sr assume sr: "sr \<in> set ORGANIZATION"
      with assms(2) have "list_all (\<lambda>b. \<not> raises (book_row b)) (section_books u sr)"
        by (simp add: list_all_iff org_books_sections)
      with sr show "\<exists>ps. shelf_section u sr = Inr ps" by (rule shelf_section_ok)
    qed
    then show ?thesis using that smap_Inr_exists by blast
  qed
  ultimately show ?thesis by (simp add: generate_html_def)
qed

lemma organize_report_books:
  assumes "organize files = Inr (all_items, u)"
  shows "all_items = read_all_files files \<and> mset (org_books u) = mset (map placed_of (filter is_book all_items))"
  using organize_placed [OF assms] by (simp add: org_books_usage_books)

lemma organizer_main_Inr:
  "organizer_main files = Inr pieces \<longleftrightarrow>
     (\<exists>all_items u. organize files = Inr (all_items, u) \<and> generate_html all_items u = Inr pieces)"
  by (auto simp: organizer_main_def sbind_eq_Inr)

lemma list_all_placed_ok:
  "list_all (\<lambda>b. \<not> raises (book_row b)) (map placed_of (filter is_book xs)) \<longleftrightarrow>
   list_all (\<lambda>it. is_book it \<longrightarrow> map_of it ''title'' \<noteq> Some None \<and> map_of it ''creators'' \<noteq> Some None) xs"
  by (induction xs) (auto simp: book_row_placed_ok)

lemma read_all_files_types: "list_all (\<lambda>it. map_of it ''item_type'' \<noteq> None) (read_all_files files)"
  by (auto simp: list_all_iff dest!: read_all_files_recognized recognized_has_type)

section \<open>Properties\<close>

text \<open>
  C11. The organizer's \<open>main\<close> produces its report exactly when every book read
  from the files has a title cell and a \<open>creators\<close> cell that are not \<open>None\<close>
  (a short CSV row): a \<open>None\<close> title makes the categorizer raise, a \<open>None\<close>
  author makes \<open>html.escape\<close> raise. No other exception is possible: every
  \<open>item_type\<close> lookup succeeds and every shelf of \<open>ORGANIZATION\<close> has its
  dimensions.
\<close>

theorem organizer_main_error_conditions:
  "(\<exists>pieces. organizer_main files = Inr pieces) \<longleftrightarrow>
     list_all (\<lambda>it. is_book it \<longrightarrow> map_of it ''title'' \<noteq> Some None \<and> map_of it ''creators'' \<noteq> Some None)
       (read_all_files files)"
  (is "?ok \<longleftrightarrow> list_all ?P ?items")
proof
  assume ?ok
  then obtain pieces all_items u where o: "organize files = Inr (all_items, u)"
    and g: "generate_html all_items u = Inr pieces"
    by (auto simp: organizer_main_Inr)
  from organize_report_books [OF o] have all: "all_items = ?items"
    and m: "mset (org_books u) = mset (map placed_of (filter is_book all_items))" by auto
  from generate_html_books [OF g] have "list_all (\<lambda>b. \<not> raises (book_row b)) (org_books u)" ..
  then show "list_all ?P ?items"
    by (simp only: list_all_mset_eq [OF m] list_all_placed_ok all)
next
  assume ok: "list_all ?P ?items"
  then have "list_all (\<lambda>it. is_book it \<longrightarrow> map_of it ''title'' \<noteq> Some None) ?items"
    by (auto simp: list_all_iff)
  then have "\<exists>r. organize files = Inr r"
    by (simp only: organize_succeeds_iff)
  then obtain r where "organize files = Inr r" ..
  moreover obtain all_items u where "r = (all_items, u)" by (cases r)
  ultimately have o: "organize files = Inr (all_items, u)" by simp
  from organize_report_books [OF o] have all: "all_items = ?items"
    and m: "mset (org_books u) = mset (map placed_of (filter is_book all_items))" by auto
  have "list_all (\<lambda>b. \<not> raises (book_row b)) (org_books u)"
    using ok by (simp only: list_all_mset_eq [OF m] list_all_placed_ok all)
  with read_all_files_types [of files] all obtain pieces where "generate_html all_items u = Inr pieces"
    using generate_html_ok by blast
  with o show ?ok by (auto simp: organizer_main_Inr)
qed

text \<open>
  C13. The report lists every book of the input exactly once: its table rows are, as a
  multiset, the rendering of the book rows read from the files, and no rendering fails.
\<close>

theorem organizer_main_lists_every_book:
  assumes "organizer_main files = Inr pieces"
  shows "\<exists>rows. smap book_row (map placed_of (filter is_book (read_all_files files))) = Inr rows
                \<and> mset (filter is_book_row pieces) = mset rows"
proof -
  from assms obtain all_items u where o: "organize files = Inr (all_items, u)"
    and g: "generate_html all_items u = Inr pieces"
    by (auto simp: organizer_main_Inr)
  from organize_report_books [OF o] have all: "all_items = read_all_files files"
    and m: "mset (org_books u) = mset (map placed_of (filter is_book all_items))" by auto
  from generate_html_books [OF g] have r: "mset (filter is_book_row pieces) = image_mset rendered (mset (org_books u))"
    and ok: "list_all (\<lambda>b. \<not> raises (book_row b)) (org_books u)" by auto
  let ?bs = "map placed_of (filter is_book all_items)"
  from ok have "list_all (\<lambda>b. \<not> raises (book_row b)) ?bs" by (simp only: list_all_mset_eq [OF m])
  then obtain rows where s: "smap book_row ?bs = Inr rows" using smap_Inr_exists by blast
  then have "rows = map rendered ?bs" by (rule smap_Inr_map)
  then have "mset rows = image_mset rendered (mset ?bs)" by (simp only: mset_map)
  also have "\<dots> = image_mset rendered (mset (org_books u))" by (simp only: m)
  finally have "mset rows = image_mset rendered (mset (org_books u))" .
  with s r all show ?thesis by auto
qed

text \<open>
  C14. The title and author cells of a report row lose nothing to escaping: decoding the
  five entities \<open>html.escape\<close> emits gives back the book's cells.
\<close>

theorem book_row_roundtrip:
  "book_row b = Inr (BookRow t a pg w) \<Longrightarrow> pb_title b = Some (entity_decode t) \<and> pb_author b = Some (entity_decode a)"
  by (auto dest!: book_row_BookRow simp: entity_decode_escape)

text \<open>
  C15. The title and author of a report row contain no \<open><\<close>, \<open>>\<close>, double or
  single quote, so user text can neither open a tag nor close an attribute.
\<close>

theorem book_row_safe:
  "book_row b = Inr (BookRow t a pg w) \<Longrightarrow>
   set t \<inter> {CHR ''<'', CHR ''>'', CHR 0x22, CHR 0x27} = {} \<and> set a \<inter> {CHR ''<'', CHR ''>'', CHR 0x22, CHR 0x27} = {}"
proof -
  assume "book_row b = Inr (BookRow t a pg w)"
  then obtain x y where "t = html_escape x" and "a = html_escape y"
    by (blast dest: book_row_BookRow)
  then show ?thesis by (simp only: html_escape_safe simp_thms)
qed

text \<open>
  C16. A shelf is banded over capacity exactly when its rows' widths exceed nine tenths
  of its available width.
\<close>

theorem finalize_shelf_over_capacity:
  "finalize_shelf su = Inr su' \<Longrightarrow>
   capacity_status (su_utilization su') = Over_capacity \<longleftrightarrow> 9 * of_nat (su_available_width su) < 10 * row_total su"
proof -
  assume f: "finalize_shelf su = Inr su'"
  let ?a = "(of_nat (su_available_width su) :: rat)"
  from finalize_shelf_utilization [OF f] have u: "su_utilization su' = row_total su * 100 / ?a" and a: "0 < ?a"
    by auto
  have "90 < row_total su * 100 / ?a \<longleftrightarrow> 90 * ?a < row_total su * 100"
    using a by (simp add: less_divide_eq)
  then show ?thesis by (simp add: u capacity_over_iff)
qed

end
