(* ===== verification/Adaptive.thy ===== *)
theory Adaptive
  imports Space
begin

text \<open>
  \<open>create_adaptive_categorizer\<close> of \<open>generate_organization.py\<close>, which the program
  defines but never calls. The categorizer it returns joins the text fields like the
  other classifiers, picks a tier with an if-chain of keyword tests, and lets the nested
  \<open>find_best_shelf\<close> choose among the tier's preferred and fallback slots by the
  shelves' current utilisation: the first preferred slot whose shelf is under 85 per cent,
  else the first fallback slot under 95 per cent, else row 1 of the least utilised shelf.
  The utilisation data is a space usage as \<open>calculate_space_usage\<close> returns it; the
  \<open>iteration\<close> argument is unused by the code.
\<close>

section \<open>\<open>find_best_shelf\<close>\<close>

definition util_of :: "space_usage \<Rightarrow> string \<Rightarrow> rat" where
  \<comment> \<open>\<open>utilization_data.get(shelf_id, {}).get('utilization', 0)\<close>\<close>
  "util_of u s = (case map_of u s of None \<Rightarrow> 0 | Some su \<Rightarrow> su_utilization su)"

fun first_under :: "rat \<Rightarrow> space_usage \<Rightarrow> slot list \<Rightarrow> slot option" where
  \<comment> \<open>\<open>for shelf_id, row_num in shelves: if ... < limit: return shelf_id, row_num\<close>\<close>
  "first_under limit u [] = None"
| "first_under limit u (sl # sls) =
     (if util_of u (fst sl) < limit then Some sl else first_under limit u sls)"

definition below :: "rat option \<Rightarrow> rat \<Rightarrow> bool" where
  \<comment> \<open>\<open>util < min_util\<close>, with \<open>None\<close> for \<open>float('inf')\<close>\<close>
  "below m x = (case m of None \<Rightarrow> True | Some y \<Rightarrow> x < y)"

fun least_from :: "space_usage \<Rightarrow> rat option \<Rightarrow> slot \<Rightarrow> string list \<Rightarrow> slot" where
  \<comment> \<open>the last-resort loop over \<open>SHELF_DIMENSIONS\<close>\<close>
  "least_from u m best [] = best"
| "least_from u m best (s # ss) =
     (if below m (util_of u s) then least_from u (Some (util_of u s)) (s, 1) ss
      else least_from u m best ss)"

definition find_best_shelf :: "space_usage \<Rightarrow> slot list \<Rightarrow> slot list \<Rightarrow> slot" where
  "find_best_shelf u preferred fallback =
     (case first_under 85 u preferred of
        Some sl \<Rightarrow> sl
      | None \<Rightarrow>
          (case first_under 95 u fallback of
             Some sl \<Rightarrow> sl
           | None \<Rightarrow> least_from u None (''office_b'', 1) (map fst SHELF_DIMENSIONS)))"

section \<open>The tiers\<close>

definition adaptive_combined :: "space_usage \<Rightarrow> string \<Rightarrow> slot" where
  "adaptive_combined u c =
    (if py_any [''genki i'', ''genki ii'', ''tobira'', ''clean code'', ''algorithms''] c
     then find_best_shelf u [(''office_a'', 1), (''office_a'', 2)] [(''office_b'', 1)]
     else if py_any [''japanese'', ''kanji''] c \<and> py_any [''textbook'', ''dictionary'', ''learning''] c
     then find_best_shelf u [(''office_a'', 1), (''dining'', 1)] [(''office_b'', 3)]
     else if py_any [''chinese''] c \<and> py_any [''textbook'', ''integrated'', ''learning''] c
     then find_best_shelf u [(''office_a'', 1), (''dining'', 2)] [(''office_b'', 3)]
     else if py_any [''programming'', ''computer'', ''software''] c
     then find_best_shelf u [(''office_a'', 2), (''office_b'', 2)] [(''crate_v'', 1)]
     else if py_any [''mathematics'', ''math'', ''algorithms''] c \<and> \<not> py_contains ''game'' c
     then find_best_shelf u [(''office_a'', 2), (''office_b'', 2), (''crate_v'', 1)] []
     else if py_any [''physics'', ''chemistry'', ''science''] c \<and> \<not> py_contains ''cooking'' c
     then find_best_shelf u [(''office_a'', 3), (''office_b'', 2), (''crate_v'', 1)] []
     else if py_any [''philosophy'', ''kant'', ''nietzsche'', ''plato''] c
     then find_best_shelf u [(''office_a'', 4), (''office_b'', 1)] []
     else if py_any [''history'', ''historical'', ''war'', ''revolution''] c
     then find_best_shelf u [(''office_b'', 1), (''hallway'', 1)] [(''crate_h'', 1)]
     else if py_any [''literature'', ''fiction'', ''novel'', ''poetry'', ''classics''] c
     then find_best_shelf u [(''office_b'', 3), (''hallway'', 2)] [(''crate_h'', 1)]
     else if py_any [''language'', ''dictionary'', ''grammar''] c \<and> \<not> py_contains ''cooking'' c
     then find_best_shelf u [(''dining'', 3), (''office_b'', 3)] [(''crate_v'', 1)]
     else if py_any [''game'', ''gaming'', ''rpg'', ''chess'', ''strategy''] c
     then find_best_shelf u [(''office_b'', 4)] [(''crate_h'', 1)]
     else if py_any [''cooking'', ''cook'', ''food'', ''recipe'', ''kitchen''] c
     then (if py_any [''asian'', ''japanese'', ''chinese'', ''sushi''] c
           then find_best_shelf u [(''dining'', 1)] [(''dining'', 3)]
           else find_best_shelf u [(''dining'', 2), (''dining'', 3)] [])
     else if py_any [''uncle john'', ''essay'', ''anthology'', ''collection''] c
     then find_best_shelf u [(''office_b'', 3), (''hallway'', 2)] [(''crate_h'', 1)]
     else find_best_shelf u [(''office_b'', 1), (''office_b'', 2), (''office_b'', 3)] [(''crate_h'', 1)])"

definition adaptive_categorize_book :: "space_usage \<Rightarrow> cell \<Rightarrow> cell \<Rightarrow> cell \<Rightarrow> cell \<Rightarrow> py_error + slot" where
  "adaptive_categorize_book u title tags grp description =
     (case combined_text title tags grp description of
        Inl e \<Rightarrow> Inl e
      | Inr c \<Rightarrow> Inr (adaptive_combined u c))"

definition create_adaptive_categorizer :: "space_usage \<Rightarrow> nat \<Rightarrow> categorizer" where
  "create_adaptive_categorizer utilization_data iteration =
     (\<lambda>t g gr d item. adaptive_categorize_book utilization_data t g gr d)"

section \<open>The tiers as a table\<close>

text \<open>
  The tier chain restated as a table of (test, preferred, fallback) rows, so that the
  validity of every slot is proved by ranging over the table's rows.
\<close>

definition adaptive_table :: "((string \<Rightarrow> bool) \<times> slot list \<times> slot list) list" where
  "adaptive_table =
    [(py_any [''genki i'', ''genki ii'', ''tobira'', ''clean code'', ''algorithms''],
        [(''office_a'', 1), (''office_a'', 2)], [(''office_b'', 1)]),
     (\<lambda>c. py_any [''japanese'', ''kanji''] c \<and> py_any [''textbook'', ''dictionary'', ''learning''] c,
        [(''office_a'', 1), (''dining'', 1)], [(''office_b'', 3)]),
     (\<lambda>c. py_any [''chinese''] c \<and> py_any [''textbook'', ''integrated'', ''learning''] c,
        [(''office_a'', 1), (''dining'', 2)], [(''office_b'', 3)]),
     (py_any [''programming'', ''computer'', ''software''],
        [(''office_a'', 2), (''office_b'', 2)], [(''crate_v'', 1)]),
     (\<lambda>c. py_any [''mathematics'', ''math'', ''algorithms''] c \<and> \<not> py_contains ''game'' c,
        [(''office_a'', 2), (''office_b'', 2), (''crate_v'', 1)], []),
     (\<lambda>c. py_any [''physics'', ''chemistry'', ''science''] c \<and> \<not> py_contains ''cooking'' c,
        [(''office_a'', 3), (''office_b'', 2), (''crate_v'', 1)], []),
     (py_any [''philosophy'', ''kant'', ''nietzsche'', ''plato''], [(''office_a'', 4), (''office_b'', 1)], []),
     (py_any [''history'', ''historical'', ''war'', ''revolution''],
        [(''office_b'', 1), (''hallway'', 1)], [(''crate_h'', 1)]),
     (py_any [''literature'', ''fiction'', ''novel'', ''poetry'', ''classics''],
        [(''office_b'', 3), (''hallway'', 2)], [(''crate_h'', 1)]),
     (\<lambda>c. py_any [''language'', ''dictionary'', ''grammar''] c \<and> \<not> py_contains ''cooking'' c,
        [(''dining'', 3), (''office_b'', 3)], [(''crate_v'', 1)]),
     (py_any [''game'', ''gaming'', ''rpg'', ''chess'', ''strategy''], [(''office_b'', 4)], [(''crate_h'', 1)]),
     (\<lambda>c. py_any [''cooking'', ''cook'', ''food'', ''recipe'', ''kitchen''] c
          \<and> py_any [''asian'', ''japanese'', ''chinese'', ''sushi''] c,
        [(''dining'', 1)], [(''dining'', 3)]),
     (py_any [''cooking'', ''cook'', ''food'', ''recipe'', ''kitchen''], [(''dining'', 2), (''dining'', 3)], []),
     (py_any [''uncle john'', ''essay'', ''anthology'', ''collection''],
        [(''office_b'', 3), (''hallway'', 2)], [(''crate_h'', 1)])]"

definition adaptive_default :: "slot list \<times> slot list" where
  "adaptive_default = ([(''office_b'', 1), (''office_b'', 2), (''office_b'', 3)], [(''crate_h'', 1)])"

section \<open>Lemmas\<close>

lemma if_nest2:
  "(if L then (if J then a else b) else R) = (if L \<and> J then a else if L then b else R)"
  by simp

lemma adaptive_combined_table:
  "adaptive_combined u c = (case first_match adaptive_table adaptive_default c of (p, f) \<Rightarrow> find_best_shelf u p f)"
  unfolding adaptive_combined_def adaptive_table_def adaptive_default_def
  by (simp only: first_match.simps if_nest2 if_distrib [of "\<lambda>x. case x of (p, f) \<Rightarrow> find_best_shelf u p f"]
      prod.case)

subsection \<open>\<open>find_best_shelf\<close>\<close>

lemma first_under_Some: "first_under lv u sls = Some sl \<Longrightarrow> sl \<in> set sls"
  by (induction sls) (auto split: if_splits)

lemma first_under_first:
  "list_all (\<lambda>sl. lv \<le> util_of u (fst sl)) pre \<Longrightarrow> util_of u (fst p) < lv \<Longrightarrow>
   first_under lv u (pre @ p # post) = Some p"
  by (induction pre) auto

lemma least_from_Some:
  "least_from u (Some m) b ss = b \<and> list_all (\<lambda>x. m \<le> util_of u x) ss
   \<or> (\<exists>pre s post. ss = pre @ s # post \<and> least_from u (Some m) b ss = (s, 1) \<and> util_of u s < m
        \<and> list_all (\<lambda>x. util_of u s < util_of u x) pre \<and> list_all (\<lambda>x. util_of u s \<le> util_of u x) post)"
proof (induction ss arbitrary: m b)
  case Nil
  then show ?case by simp
next
  case (Cons x ss)
  show ?case
  proof (cases "util_of u x < m")
    case True
    then have r: "least_from u (Some m) b (x # ss) = least_from u (Some (util_of u x)) (x, 1) ss"
      by (simp add: below_def)
    from Cons.IH [of "util_of u x" "(x, 1)"] show ?thesis
    proof
      assume a: "least_from u (Some (util_of u x)) (x, 1) ss = (x, 1) \<and> list_all (\<lambda>y. util_of u x \<le> util_of u y) ss"
      show ?thesis
      proof (rule disjI2, rule exI [of _ "[]"], rule exI [of _ x], rule exI [of _ ss])
      qed (use True r a in auto)
    next
      assume "\<exists>pre s post. ss = pre @ s # post \<and> least_from u (Some (util_of u x)) (x, 1) ss = (s, 1)
        \<and> util_of u s < util_of u x \<and> list_all (\<lambda>y. util_of u s < util_of u y) pre
        \<and> list_all (\<lambda>y. util_of u s \<le> util_of u y) post"
      then obtain pre s post where "ss = pre @ s # post" "least_from u (Some (util_of u x)) (x, 1) ss = (s, 1)"
        "util_of u s < util_of u x" "list_all (\<lambda>y. util_of u s < util_of u y) pre"
        "list_all (\<lambda>y. util_of u s \<le> util_of u y) post" by blast
      note a = this
      show ?thesis
      proof (rule disjI2, rule exI [of _ "x # pre"], rule exI [of _ s], rule exI [of _ post])
      qed (use True r a in auto)
    qed
  next
    case False
    then have r: "least_from u (Some m) b (x # ss) = least_from u (Some m) b ss"
      by (simp add: below_def)
    from Cons.IH [of m b] show ?thesis
    proof
      assume "least_from u (Some m) b ss = b \<and> list_all (\<lambda>y. m \<le> util_of u y) ss"
      with False r show ?thesis by simp
    next
      assume "\<exists>pre s post. ss = pre @ s # post \<and> least_from u (Some m) b ss = (s, 1)
        \<and> util_of u s < m \<and> list_all (\<lambda>y. util_of u s < util_of u y) pre
        \<and> list_all (\<lambda>y. util_of u s \<le> util_of u y) post"
      then obtain pre s post where "ss = pre @ s # post" "least_from u (Some m) b ss = (s, 1)"
        "util_of u s < m" "list_all (\<lambda>y. util_of u s < util_of u y) pre"
        "list_all (\<lambda>y. util_of u s \<le> util_of u y) post" by blast
      note a = this
      show ?thesis
      proof (rule disjI2, rule exI [of _ "x # pre"], rule exI [of _ s], rule exI [of _ post])
      qed (use False r a in auto)
    qed
  qed
qed

lemma least_from_None:
  assumes "ss \<noteq> []"
  shows "\<exists>pre s post. ss = pre @ s # post \<and> least_from u None b ss = (s, 1)
           \<and> list_all (\<lambda>x. util_of u s < util_of u x) pre \<and> list_all (\<lambda>x. util_of u s \<le> util_of u x) post"
proof -
  obtain x xs where ss: "ss = x # xs" using assms by (cases ss) auto
  then have r: "least_from u None b ss = least_from u (Some (util_of u x)) (x, 1) xs"
    by (simp add: below_def)
  from least_from_Some [of u "util_of u x" "(x, 1)" xs] show ?thesis
  proof
    assume a: "least_from u (Some (util_of u x)) (x, 1) xs = (x, 1) \<and> list_all (\<lambda>y. util_of u x \<le> util_of u y) xs"
    show ?thesis
    proof (rule exI [of _ "[]"], rule exI [of _ x], rule exI [of _ xs])
    qed (use ss r a in auto)
  next
    assume "\<exists>pre s post. xs = pre @ s # post \<and> least_from u (Some (util_of u x)) (x, 1) xs = (s, 1)
        \<and> util_of u s < util_of u x \<and> list_all (\<lambda>y. util_of u s < util_of u y) pre
        \<and> list_all (\<lambda>y. util_of u s \<le> util_of u y) post"
    then obtain pre s post where "xs = pre @ s # post" "least_from u (Some (util_of u x)) (x, 1) xs = (s, 1)"
      "util_of u s < util_of u x" "list_all (\<lambda>y. util_of u s < util_of u y) pre"
      "list_all (\<lambda>y. util_of u s \<le> util_of u y) post" by blast
    note a = this
    show ?thesis
    proof (rule exI [of _ "x # pre"], rule exI [of _ s], rule exI [of _ post])
    qed (use ss r a in auto)
  qed
qed

lemma least_from_shelf:
  "least_from u None (''office_b'', 1) (map fst SHELF_DIMENSIONS) \<in> (\<lambda>s. (s, 1)) ` set (map fst SHELF_DIMENSIONS)"
proof -
  have "map fst SHELF_DIMENSIONS \<noteq> []" by (simp add: shelf_config)
  from least_from_None [OF this, of u "(''office_b'', 1)"] show ?thesis by force
qed

lemma valid_slot_row1: "(s, d) \<in> set SHELF_DIMENSIONS \<Longrightarrow> valid_slot (s, 1)"
  by (auto simp: shelf_config valid_slot_iff)

lemma find_best_shelf_valid:
  "list_all valid_slot p \<Longrightarrow> list_all valid_slot f \<Longrightarrow> valid_slot (find_best_shelf u p f)"
proof -
  assume p: "list_all valid_slot p" and f: "list_all valid_slot f"
  obtain s where "s \<in> set (map fst SHELF_DIMENSIONS)"
    and l: "least_from u None (''office_b'', 1) (map fst SHELF_DIMENSIONS) = (s, 1)"
    using least_from_shelf [of u] by blast
  then obtain d where "(s, d) \<in> set SHELF_DIMENSIONS" by auto
  then have "valid_slot (least_from u None (''office_b'', 1) (map fst SHELF_DIMENSIONS))"
    unfolding l by (rule valid_slot_row1)
  with p f show ?thesis
    by (auto simp: find_best_shelf_def list_all_iff dest!: first_under_Some split: option.splits)
qed

lemma first_under_None: "list_all (\<lambda>sl. lv \<le> util_of u (fst sl)) sls \<Longrightarrow> first_under lv u sls = None"
  by (induction sls) auto

subsection \<open>The adaptive categorizer meets the space calculator's interface\<close>

lemma adaptive_table_valid:
  "\<forall>(p, f) \<in> insert adaptive_default (snd ` set adaptive_table). list_all valid_slot p \<and> list_all valid_slot f"
  by (simp add: adaptive_table_def adaptive_default_def valid_slot_iff shelf_config)

lemma adaptive_combined_valid: "valid_slot (adaptive_combined u c)"
proof -
  obtain p f where pf: "first_match adaptive_table adaptive_default c = (p, f)" by (cases "first_match adaptive_table adaptive_default c")
  have "(p, f) \<in> insert adaptive_default (snd ` set adaptive_table)"
    unfolding pf [symmetric] by (rule first_match_result)
  from bspec [OF adaptive_table_valid this] have "list_all valid_slot p" and "list_all valid_slot f"
    by simp_all
  then show ?thesis by (simp add: adaptive_combined_table pf find_best_shelf_valid)
qed

lemma adaptive_categorize_book_Inr:
  "adaptive_categorize_book u t g gr d = Inr sl \<longleftrightarrow>
     (\<exists>c. combined_text t g gr d = Inr c \<and> sl = adaptive_combined u c)"
  by (cases "combined_text t g gr d") (auto simp: adaptive_categorize_book_def)

lemma categorizer_ok_adaptive: "categorizer_ok (create_adaptive_categorizer u i)"
  unfolding categorizer_ok_def create_adaptive_categorizer_def adaptive_categorize_book_Inr
  by (blast intro: adaptive_combined_valid)

lemma raises_adaptive_categorize_book: "raises (adaptive_categorize_book u t g gr d) \<longleftrightarrow> t = None"
  by (cases t) (simp_all add: adaptive_categorize_book_def combined_text_def raises_def)

lemma item_ok_adaptive:
  "item_ok (categorizer_of (Some (create_adaptive_categorizer u i))) it \<longleftrightarrow>
     map_of it ''item_type'' \<noteq> None \<and> (is_book it \<longrightarrow> map_of it ''title'' \<noteq> Some None)"
  by (auto simp: item_ok_def categorizer_of_def categorize_item_def create_adaptive_categorizer_def
      raises_adaptive_categorize_book row_get_def split: option.splits)

section \<open>Properties\<close>

text \<open>
  C17. Whatever the utilisation data, the space calculator run with the adaptive
  categorizer raises exactly when an item has no \<open>item_type\<close> or a book's title is
  \<open>None\<close>: every slot \<open>find_best_shelf\<close> can return, the least-utilised shelf's
  row 1 included, is a row the calculator has.
\<close>

theorem adaptive_calculate_error_conditions:
  "(\<exists>u'. calculate_space_usage items (Some (create_adaptive_categorizer u i)) = Inr u') \<longleftrightarrow>
     list_all (\<lambda>it. map_of it ''item_type'' \<noteq> None \<and> (is_book it \<longrightarrow> map_of it ''title'' \<noteq> Some None)) items"
proof -
  have "categorizer_ok (categorizer_of (Some (create_adaptive_categorizer u i)))"
    by (simp add: categorizer_of_def categorizer_ok_adaptive)
  moreover have "item_ok (categorizer_of (Some (create_adaptive_categorizer u i))) =
      (\<lambda>it. map_of it ''item_type'' \<noteq> None \<and> (is_book it \<longrightarrow> map_of it ''title'' \<noteq> Some None))"
    by (rule ext) (rule item_ok_adaptive)
  ultimately show ?thesis
    by (simp only: calculate_space_usage_Inr_iff)
qed

text \<open>
  C18. \<open>find_best_shelf\<close> returns the first preferred slot whose shelf is under 85
  per cent utilised.
\<close>

theorem find_best_shelf_preferred:
  "list_all (\<lambda>sl. 85 \<le> util_of u (fst sl)) pre \<Longrightarrow> util_of u (fst sl) < 85 \<Longrightarrow>
   find_best_shelf u (pre @ sl # post) fallback = sl"
  by (simp add: find_best_shelf_def first_under_first)

text \<open>
  C19. When no preferred shelf is under 85 per cent, \<open>find_best_shelf\<close> returns the
  first fallback slot whose shelf is under 95 per cent.
\<close>

theorem find_best_shelf_fallback:
  "list_all (\<lambda>sl. 85 \<le> util_of u (fst sl)) preferred \<Longrightarrow> list_all (\<lambda>sl. 95 \<le> util_of u (fst sl)) pre \<Longrightarrow>
   util_of u (fst sl) < 95 \<Longrightarrow> find_best_shelf u preferred (pre @ sl # post) = sl"
  by (simp add: find_best_shelf_def first_under_first first_under_None)

text \<open>
  C20. When no candidate qualifies, \<open>find_best_shelf\<close> returns row 1 of the least
  utilised shelf of \<open>SHELF_DIMENSIONS\<close>, the first one among equally utilised
  shelves (the comparison is strict and the scan starts from infinity).
\<close>

theorem find_best_shelf_least:
  "list_all (\<lambda>sl. 85 \<le> util_of u (fst sl)) preferred \<Longrightarrow> list_all (\<lambda>sl. 95 \<le> util_of u (fst sl)) fallback \<Longrightarrow>
   \<exists>pre s post. map fst SHELF_DIMENSIONS = pre @ s # post \<and> find_best_shelf u preferred fallback = (s, 1)
     \<and> list_all (\<lambda>x. util_of u s < util_of u x) pre \<and> list_all (\<lambda>x. util_of u s \<le> util_of u x) post"
proof -
  assume "list_all (\<lambda>sl. 85 \<le> util_of u (fst sl)) preferred" "list_all (\<lambda>sl. 95 \<le> util_of u (fst sl)) fallback"
  then have "find_best_shelf u preferred fallback = least_from u None (''office_b'', 1) (map fst SHELF_DIMENSIONS)"
    by (simp add: find_best_shelf_def first_under_None)
  moreover have "map fst SHELF_DIMENSIONS \<noteq> []" by (simp add: shelf_config)
  ultimately show ?thesis using least_from_None by metis
qed

text \<open>
  C21. Every text containing \<open>algorithms\<close> is decided by tier 1 (office A rows 1
  and 2, then office B row 1), so the \<open>algorithms\<close> keyword of the tier-3 mathematics
  rule is dead, and an algorithms book is preferably placed on office A row 1, the
  language-learning row.
\<close>

theorem adaptive_algorithms_tier1:
  "py_contains ''algorithms'' c \<Longrightarrow>
   adaptive_combined u c = find_best_shelf u [(''office_a'', 1), (''office_a'', 2)] [(''office_b'', 1)]"
  by (simp add: adaptive_combined_def py_any_def)

end
