(* ===== verification/Screenshot.thy ===== *)
theory Screenshot
  imports Prelude
begin

text \<open>
  \<open>src/frontend/scripts/selenium-screenshot.py\<close>. The browser is external: each call
  the script makes on it either returns or raises, and the environment record
  \<open>browser_env\<close> says which. \<open>capture_screenshot\<close> returns the actions it performed on
  the browser, in order, with its result; its \<open>try\<close>/\<open>except Exception\<close>/\<open>finally\<close>
  is written out: an exception of the body is a value \<open>Inl e\<close> that the \<open>except\<close>
  clause turns into \<open>False\<close>, and the \<open>finally\<close> clause quits a created driver on
  every path, its own exception replacing the result. \<open>WebDriverWait(driver, 10)\<close>
  polls \<open>document.readyState\<close> until it is \<open>complete\<close>; how many polls fit in the
  10 seconds is a parameter of the environment (\<open>env_polls\<close> further polls after the
  first). Printing is not modelled. The session protocol is the step relation
  \<open>browser_step\<close>; a trace is accepted by its closure \<open>browser_run\<close>.
\<close>

section \<open>The browser and its environment\<close>

datatype action =
    Launch | LaunchFailed | Navigate string | PollReady | Sleep int | SaveShot string | Quit

record browser_env =
  env_launch :: "py_error option"             \<comment> \<open>\<open>webdriver.Chrome(options=...)\<close> raises\<close>
  env_get :: "py_error option"                \<comment> \<open>\<open>driver.get(url)\<close> raises\<close>
  env_ready :: "nat \<Rightarrow> py_error + string"    \<comment> \<open>the \<open>i\<close>-th \<open>document.readyState\<close> poll\<close>
  env_polls :: nat                            \<comment> \<open>polls after the first one before the deadline\<close>
  env_save :: "py_error + bool"               \<comment> \<open>\<open>driver.save_screenshot(path)\<close>\<close>
  env_quit :: "py_error option"               \<comment> \<open>\<open>driver.quit()\<close> raises\<close>

section \<open>\<open>capture_screenshot\<close>\<close>

fun wait_ready :: "(nat \<Rightarrow> py_error + string) \<Rightarrow> nat \<Rightarrow> nat \<Rightarrow> action list \<times> py_error option" where
  \<comment> \<open>\<open>WebDriverWait(driver, 10).until(lambda d: d.execute_script(...) == "complete")\<close>:
      poll, return on success, propagate an exception, raise \<open>TimeoutException\<close> at the deadline\<close>
  "wait_ready ready i 0 =
     (case ready i of
        Inl e \<Rightarrow> ([PollReady], Some e)
      | Inr st \<Rightarrow> ([PollReady], if st = ''complete'' then None else Some TimeoutException))"
| "wait_ready ready i (Suc n) =
     (case ready i of
        Inl e \<Rightarrow> ([PollReady], Some e)
      | Inr st \<Rightarrow>
          if st = ''complete'' then ([PollReady], None)
          else (case wait_ready ready (Suc i) n of (polls, r) \<Rightarrow> (PollReady # polls, r)))"

definition try_body :: "browser_env \<Rightarrow> string \<Rightarrow> string \<Rightarrow> int \<Rightarrow> action list \<times> (py_error + bool)" where
  \<comment> \<open>the \<open>try\<close> block after the driver exists, up to \<open>return True\<close>;
      \<open>time.sleep\<close> of a negative duration raises \<open>ValueError\<close>;
      the value \<open>save_screenshot\<close> returns is discarded\<close>
  "try_body env url output_path wait_seconds =
     (case env_get env of
        Some e \<Rightarrow> ([Navigate url], Inl e)
      | None \<Rightarrow>
          (case wait_ready (env_ready env) 0 (env_polls env) of
             (polls, Some e) \<Rightarrow> (Navigate url # polls, Inl e)
           | (polls, None) \<Rightarrow>
               if wait_seconds < 0 then (Navigate url # polls, Inl ValueError)
               else
                 (case env_save env of
                    Inl e \<Rightarrow> (Navigate url # polls @ [Sleep wait_seconds, SaveShot output_path], Inl e)
                  | Inr saved \<Rightarrow> (Navigate url # polls @ [Sleep wait_seconds, SaveShot output_path], Inr True))))"

definition handle_except :: "py_error + bool \<Rightarrow> py_error + bool" where
  \<comment> \<open>\<open>except Exception as e: print(...); return False\<close>\<close>
  "handle_except r = (case r of Inl e \<Rightarrow> Inr False | Inr b \<Rightarrow> Inr b)"

definition capture_screenshot ::
  "browser_env \<Rightarrow> string \<Rightarrow> string \<Rightarrow> int \<Rightarrow> string \<Rightarrow> action list \<times> (py_error + bool)" where
  "capture_screenshot env url output_path wait_seconds description =
     (case env_launch env of
        Some e \<Rightarrow> ([LaunchFailed], handle_except (Inl e))
      | None \<Rightarrow>
          (case try_body env url output_path wait_seconds of
             (tr, r) \<Rightarrow>
               (case env_quit env of
                  None \<Rightarrow> (Launch # tr @ [Quit], handle_except r)
                | Some e \<Rightarrow> (Launch # tr @ [Quit], Inl e))))"

section \<open>\<open>main\<close>\<close>

definition wait_arg :: "string list \<Rightarrow> py_error + int" where
  \<comment> \<open>\<open>int(sys.argv[3]) if len(sys.argv) > 3 else 20\<close>\<close>
  "wait_arg argv =
     (if 3 < length argv then (case py_int (argv ! 3) of None \<Rightarrow> Inl ValueError | Some n \<Rightarrow> Inr n)
      else Inr 20)"

definition screenshot_main :: "browser_env \<Rightarrow> string list \<Rightarrow> action list \<times> (py_error + nat)" where
  \<comment> \<open>\<open>Inr c\<close> is \<open>sys.exit(c)\<close>, \<open>Inl e\<close> an exception that escapes \<open>main\<close>\<close>
  "screenshot_main env argv =
     (if length argv < 3 then ([], Inr 1)
      else
        (case wait_arg argv of
           Inl e \<Rightarrow> ([], Inl e)
         | Inr wait \<Rightarrow>
             (let url = argv ! 1; output = argv ! 2;
                  desc = (if 4 < length argv then argv ! 4 else ''Capturing '' @ url)
              in case capture_screenshot env url output wait desc of
                   (tr, Inl e) \<Rightarrow> (tr, Inl e)
                 | (tr, Inr success) \<Rightarrow> (tr, Inr (if success then 0 else 1)))))"

definition process_status :: "py_error + nat \<Rightarrow> nat" where
  \<comment> \<open>the interpreter exits with status 1 on an uncaught exception\<close>
  "process_status r = (case r of Inl e \<Rightarrow> 1 | Inr c \<Rightarrow> c)"

section \<open>The session protocol\<close>

datatype driver_state = NoDriver | Live | Released

inductive browser_step :: "driver_state \<Rightarrow> action \<Rightarrow> driver_state \<Rightarrow> bool" where
  launch: "browser_step NoDriver Launch Live"
| launch_failed: "browser_step NoDriver LaunchFailed NoDriver"
| navigate: "browser_step Live (Navigate url) Live"
| poll: "browser_step Live PollReady Live"
| sleep: "browser_step Live (Sleep n) Live"
| save: "browser_step Live (SaveShot p) Live"
| quit: "browser_step Live Quit Released"

inductive browser_run :: "driver_state \<Rightarrow> action list \<Rightarrow> driver_state \<Rightarrow> bool" where
  run_nil: "browser_run s [] s"
| run_cons: "browser_step s a t \<Longrightarrow> browser_run t as u \<Longrightarrow> browser_run s (a # as) u"

code_pred browser_step .

code_pred browser_run .


definition live_op :: "action \<Rightarrow> bool" where
  \<comment> \<open>an action on an existing driver\<close>
  "live_op a = (a \<noteq> Launch \<and> a \<noteq> LaunchFailed \<and> a \<noteq> Quit)"

section \<open>Lemmas\<close>

lemma browser_run_append:
  "browser_run s xs t \<Longrightarrow> browser_run t ys u \<Longrightarrow> browser_run s (xs @ ys) u"
  by (induction rule: browser_run.induct) (auto intro: browser_run.intros)

lemma browser_run_live: "list_all live_op xs \<Longrightarrow> browser_run Live xs Live"
proof (induction xs)
  case Nil
  show ?case by (rule run_nil)
next
  case (Cons a xs)
  then have "browser_step Live a Live"
    by (cases a) (auto simp: live_op_def intro: browser_step.intros)
  with Cons show ?case by (auto intro: run_cons)
qed

lemma wait_ready_continue:
  "ready i = Inr st \<Longrightarrow> st \<noteq> ''complete'' \<Longrightarrow>
   wait_ready ready i (Suc n) = (PollReady # fst (wait_ready ready (Suc i) n), snd (wait_ready ready (Suc i) n))"
  by (simp add: split_def)

lemma wait_ready_polls: "\<exists>k. fst (wait_ready ready i n) = replicate (Suc k) PollReady \<and> k \<le> n"
proof (induction n arbitrary: i)
  case 0
  show ?case by (cases "ready i") auto
next
  case (Suc n)
  show ?case
  proof (cases "ready i")
    case (Inl e)
    then show ?thesis by simp
  next
    case (Inr st)
    show ?thesis
    proof (cases "st = ''complete''")
      case True
      with Inr show ?thesis by simp
    next
      case False
      obtain k where "fst (wait_ready ready (Suc i) n) = replicate (Suc k) PollReady" and "k \<le> n"
        using Suc.IH by blast
      moreover have "fst (wait_ready ready i (Suc n)) = PollReady # fst (wait_ready ready (Suc i) n)"
        by (subst wait_ready_continue [of ready i st n, OF Inr False]) (rule fst_conv)
      ultimately show ?thesis by (intro exI [of _ "Suc k"]) simp
    qed
  qed
qed

lemma try_body_live: "list_all live_op (fst (try_body env url out w))"
proof -
  obtain k where "fst (wait_ready (env_ready env) 0 (env_polls env)) = replicate (Suc k) PollReady"
    using wait_ready_polls by blast
  then have "list_all live_op (fst (wait_ready (env_ready env) 0 (env_polls env)))"
    by (simp add: live_op_def list_all_iff)
  then show ?thesis
    by (auto simp: try_body_def live_op_def split: option.splits prod.splits sum.splits)
qed

lemma browser_run_session: "list_all live_op mid \<Longrightarrow> browser_run NoDriver (Launch # mid @ [Quit]) Released"
proof -
  assume "list_all live_op mid"
  then have "browser_run Live mid Live" by (rule browser_run_live)
  moreover have "browser_run Live [Quit] Released" by (blast intro: browser_run.intros browser_step.intros)
  ultimately have "browser_run Live (mid @ [Quit]) Released" by (rule browser_run_append)
  then show ?thesis by (blast intro: run_cons launch)
qed

lemma capture_launch_failed:
  "env_launch env = Some e \<Longrightarrow> capture_screenshot env url out w d = ([LaunchFailed], Inr False)"
  by (simp add: capture_screenshot_def handle_except_def)

lemma capture_trace:
  "env_launch env = None \<Longrightarrow> fst (capture_screenshot env url out w d) = Launch # fst (try_body env url out w) @ [Quit]"
  by (simp add: capture_screenshot_def split_def split: option.splits)

lemma capture_True:
  "snd (capture_screenshot env url out w d) = Inr True \<Longrightarrow>
   env_launch env = None \<and> snd (try_body env url out w) = Inr True"
  by (auto simp: capture_screenshot_def handle_except_def split_def split: option.splits sum.splits)

lemma try_body_True:
  "snd (try_body env url out w) = Inr True \<Longrightarrow> SaveShot out \<in> set (fst (try_body env url out w))"
  by (auto simp: try_body_def split: option.splits prod.splits sum.splits if_splits)


lemma wait_ready_complete:
  "wait_ready ready i n = (polls, None) \<Longrightarrow>
   \<exists>k \<le> n. polls = replicate (Suc k) PollReady \<and> ready (i + k) = Inr ''complete''"
proof (induction n arbitrary: i polls)
  case 0
  then show ?case by (cases "ready i") (auto split: if_splits)
next
  case (Suc n)
  show ?case
  proof (cases "ready i")
    case (Inl e)
    with Suc.prems show ?thesis by simp
  next
    case (Inr st)
    show ?thesis
    proof (cases "st = ''complete''")
      case True
      with Inr Suc.prems show ?thesis by auto
    next
      case False
      let ?w = "wait_ready ready (Suc i) n"
      have "wait_ready ready i (Suc n) = (PollReady # fst ?w, snd ?w)"
        by (rule wait_ready_continue [of ready i st n, OF Inr False])
      with Suc.prems have p: "polls = PollReady # tl polls" and "?w = (tl polls, None)"
        by (simp_all add: prod_eq_iff)
      then obtain k where "k \<le> n" "tl polls = replicate (Suc k) PollReady" "ready (Suc i + k) = Inr ''complete''"
        using Suc.IH by blast
      with p show ?thesis by (intro exI [of _ "Suc k"]) auto
    qed
  qed
qed

lemma wait_ready_timeout:
  "\<forall>j \<le> n. \<exists>st. ready (i + j) = Inr st \<and> st \<noteq> ''complete'' \<Longrightarrow>
   wait_ready ready i n = (replicate (Suc n) PollReady, Some TimeoutException)"
proof (induction n arbitrary: i)
  case 0
  then show ?case by auto
next
  case (Suc n)
  from Suc.prems obtain st where st: "ready i = Inr st" "st \<noteq> ''complete''"
    by (metis add_0_right zero_le)
  have "\<forall>j \<le> n. \<exists>st. ready (Suc i + j) = Inr st \<and> st \<noteq> ''complete''"
    using Suc.prems by (metis Suc_le_mono add_Suc_right add_Suc_shift)
  then have "wait_ready ready (Suc i) n = (replicate (Suc n) PollReady, Some TimeoutException)"
    by (rule Suc.IH)
  then show ?case by (subst wait_ready_continue [of ready i st n, OF st]) simp
qed

lemma try_body_saves:
  assumes "SaveShot p \<in> set (fst (try_body env url out w))"
  shows "env_get env = None \<and> snd (wait_ready (env_ready env) 0 (env_polls env)) = None \<and> 0 \<le> w \<and> p = out
         \<and> fst (try_body env url out w) = Navigate url # fst (wait_ready (env_ready env) 0 (env_polls env)) @ [Sleep w, SaveShot out]"
proof -
  obtain polls res where wr: "wait_ready (env_ready env) 0 (env_polls env) = (polls, res)"
    by (cases "wait_ready (env_ready env) 0 (env_polls env)")
  have ps: "SaveShot p \<notin> set polls"
    using wait_ready_polls [of "env_ready env" 0 "env_polls env"] wr by auto
  show ?thesis
    using assms ps by (cases "env_get env"; cases res; cases "env_save env") (auto simp: try_body_def wr split: if_splits)
qed

section \<open>Properties\<close>

text \<open>
  C23. The browser session is released on every path: the actions
  \<open>capture_screenshot\<close> performs are a run of the session protocol that ends released
  when the driver was created (every driver call happens on the live session, then
  \<open>quit\<close> exactly once, last) and that touches nothing when creating the driver failed.
\<close>

theorem capture_screenshot_releases_driver:
  "browser_run NoDriver (fst (capture_screenshot env url output_path w d))
     (if env_launch env = None then Released else NoDriver)"
proof (cases "env_launch env")
  case None
  have "browser_run NoDriver (Launch # fst (try_body env url output_path w) @ [Quit]) Released"
    by (rule browser_run_session) (rule try_body_live)
  with None show ?thesis by (simp add: capture_trace)
next
  case (Some e)
  have "browser_run NoDriver [LaunchFailed] NoDriver"
    by (blast intro: browser_run.intros browser_step.intros)
  with Some show ?thesis by (simp add: capture_launch_failed)
qed


text \<open>
  C25. A screenshot is taken only to the requested path, after the page reported
  \<open>complete\<close> at some poll before the deadline and after sleeping the requested
  (non-negative) time; the only action after it is \<open>quit\<close>.
\<close>

theorem capture_screenshot_saves_after_ready:
  "SaveShot p \<in> set (fst (capture_screenshot env url output_path w d)) \<Longrightarrow>
   p = output_path \<and> 0 \<le> w
   \<and> (\<exists>k \<le> env_polls env. env_ready env k = Inr ''complete''
        \<and> fst (capture_screenshot env url output_path w d)
            = Launch # Navigate url # replicate (Suc k) PollReady @ [Sleep w, SaveShot output_path, Quit])"
proof -
  assume save: "SaveShot p \<in> set (fst (capture_screenshot env url output_path w d))"
  then have l: "env_launch env = None" by (cases "env_launch env") (auto simp: capture_launch_failed)
  have tr: "fst (capture_screenshot env url output_path w d) = Launch # fst (try_body env url output_path w) @ [Quit]"
    using l by (rule capture_trace)
  with save have "SaveShot p \<in> set (fst (try_body env url output_path w))" by simp
  then have r: "snd (wait_ready (env_ready env) 0 (env_polls env)) = None" and w: "0 \<le> w" and p: "p = output_path"
    and tb: "fst (try_body env url output_path w)
             = Navigate url # fst (wait_ready (env_ready env) 0 (env_polls env)) @ [Sleep w, SaveShot output_path]"
    by (auto dest: try_body_saves)
  from r obtain k where k: "k \<le> env_polls env"
    "fst (wait_ready (env_ready env) 0 (env_polls env)) = replicate (Suc k) PollReady"
    "env_ready env k = Inr ''complete''"
    using wait_ready_complete [of "env_ready env" 0 "env_polls env"] by (metis add_0 prod.collapse)
  show ?thesis using k w p by (auto simp: tr tb)
qed

text \<open>
  C26. A page that never reports \<open>complete\<close> before the deadline fails the operation,
  not the process: the wait polls exactly up to the deadline, no screenshot is taken, the
  driver is quit and the result is \<open>False\<close>.
\<close>

theorem capture_screenshot_timeout:
  "env_launch env = None \<Longrightarrow> env_get env = None \<Longrightarrow> env_quit env = None \<Longrightarrow>
   \<forall>j \<le> env_polls env. \<exists>st. env_ready env j = Inr st \<and> st \<noteq> ''complete'' \<Longrightarrow>
   capture_screenshot env url output_path w d
     = (Launch # Navigate url # replicate (Suc (env_polls env)) PollReady @ [Quit], Inr False)"
  using wait_ready_timeout [of "env_polls env" "env_ready env" 0]
  by (simp add: capture_screenshot_def try_body_def handle_except_def)

text \<open>
  C27. The script exits with status 0 only when it was given a URL and an output path,
  attempted the screenshot at that path, and released the browser.
\<close>

theorem screenshot_main_exit_zero:
  "process_status (snd (screenshot_main env argv)) = 0 \<Longrightarrow>
   3 \<le> length argv \<and> SaveShot (argv ! 2) \<in> set (fst (screenshot_main env argv))
   \<and> browser_run NoDriver (fst (screenshot_main env argv)) Released"
proof -
  assume z: "process_status (snd (screenshot_main env argv)) = 0"
  have a: "3 \<le> length argv"
  proof (rule ccontr)
    assume "\<not> 3 \<le> length argv"
    then have "screenshot_main env argv = ([], Inr 1)" by (simp add: screenshot_main_def)
    with z show False by (simp add: process_status_def)
  qed
  with z obtain wait where wa: "wait_arg argv = Inr wait"
    by (cases "wait_arg argv") (auto simp: screenshot_main_def process_status_def)
  let ?desc = "if 4 < length argv then argv ! 4 else ''Capturing '' @ argv ! 1"
  obtain tr r where c: "capture_screenshot env (argv ! 1) (argv ! 2) wait ?desc = (tr, r)"
    by (cases "capture_screenshot env (argv ! 1) (argv ! 2) wait ?desc")
  have m: "screenshot_main env argv = (tr, case r of Inl e \<Rightarrow> Inl e | Inr s \<Rightarrow> Inr (if s then 0 else 1))"
    using a wa c by (auto simp: screenshot_main_def Let_def split: sum.splits)
  from z have rt: "r = Inr True"
    by (cases r) (auto simp: m process_status_def split: if_splits)
  have "snd (capture_screenshot env (argv ! 1) (argv ! 2) wait ?desc) = Inr True"
    by (simp only: c rt snd_conv)
  then have l: "env_launch env = None" and t: "snd (try_body env (argv ! 1) (argv ! 2) wait) = Inr True"
    by (auto dest: capture_True)
  have "tr = Launch # fst (try_body env (argv ! 1) (argv ! 2) wait) @ [Quit]"
    using capture_trace [OF l, of "argv ! 1" "argv ! 2" wait ?desc] c by simp
  moreover have "SaveShot (argv ! 2) \<in> set (fst (try_body env (argv ! 1) (argv ! 2) wait))"
    using t by (rule try_body_True)
  moreover have "browser_run NoDriver (Launch # fst (try_body env (argv ! 1) (argv ! 2) wait) @ [Quit]) Released"
    by (rule browser_run_session) (rule try_body_live)
  ultimately show ?thesis using a by (simp add: m)
qed

end
