(* ===== verification/Spec2Isabelle.thy ===== *)
theory Spec2Isabelle
  imports Report Adaptive Screenshot
begin

text \<open>
  \<^bold>\<open>A verification library for the inventory repository.\<close>

  The repository holds two unrelated Python scripts.
  \<^item> \<open>src/generate_organization.py\<close> (the library organizer) reads CSV exports,
    classifies every book into a shelf slot (a shelf identifier and a row number) with
    keyword rules, sums estimated spine widths per row and shelf, derives each shelf's
    utilisation, and writes an HTML report. \<open>main\<close> runs
    \<open>iterative_balance\<close>, which calls \<open>calculate_space_usage\<close> with
    \<open>balanced_categorize_book\<close>; \<open>categorize_book\<close> is the calculator's default
    categorizer and the adaptive categorizer is defined but never called.
    The parts interact in one direction: \<open>main\<close> reads every file, keeps the books,
    runs the space calculator with the balanced classifier, and renders the report from
    all items and the resulting space usage.
  \<^item> \<open>src/frontend/scripts/selenium-screenshot.py\<close> drives a headless browser to
    capture one screenshot of a page once it has rendered.

  \<^bold>\<open>Theories and what they model.\<close>
  \<^item> \<open>Prelude\<close>: Python's exceptions (\<open>py_error\<close>), CSV cells and rows
    (\<open>cell\<close>, \<open>row\<close>, with \<open>dict.get\<close> as \<open>row_get\<close> and \<open>d[k]\<close> as
    \<open>row_index\<close>), \<open>str.lower\<close> (\<open>py_lower\<close>, on ASCII letters), the substring
    test \<open>w in s\<close> (\<open>py_contains\<close>, shown equal to \<open>sublist\<close>), \<open>any(...)\<close>
    (\<open>py_any\<close>), \<open>int(str)\<close> and \<open>str(int)\<close> (\<open>py_int\<close>, \<open>py_str_int\<close>,
    with the round trip \<open>py_int (py_str_int n) = Some n\<close>), exception propagation
    (\<open>sbind\<close>) and the fallible in-place dictionary update \<open>update_at\<close>.
  \<^item> \<open>Shelves\<close>: \<open>SHELF_DIMENSIONS\<close> and \<open>ORGANIZATION\<close> as association lists in
    the source's order, and \<open>valid_slot\<close>: the slots the calculator has a row for.
  \<^item> \<open>Width\<close>: \<open>estimate_book_width\<close>. Floats are exact rationals here; every
    width is a multiple of a quarter inch (C9), so the sums the program forms are exact
    in binary64 as well.
  \<^item> \<open>Classifier\<close>: \<open>categorize_book\<close> and \<open>balanced_categorize_book\<close>; each is
    the text join \<open>combined_text\<close> (raising \<open>AttributeError\<close> on a \<open>None\<close>
    title) followed by the literal if-chain of the source (\<open>categorize_combined\<close>,
    \<open>balanced_combined\<close>). For the proofs each chain is restated as a rule table
    searched by \<open>first_match\<close>; \<open>categorizer_ok\<close> is the interface the calculator
    relies on: every slot returned exists.
  \<^item> \<open>Space\<close>: \<open>calculate_space_usage\<close> with its state \<open>shelf_usage\<close> (records
    \<open>shelf_usage\<close>, \<open>row_usage\<close>, \<open>placed_book\<close>), the per-item step
    \<open>place_item\<close>, the loop \<open>place_items\<close>, the final pass \<open>finalize_usage\<close>;
    every \<open>KeyError\<close>, the categorizer's error and \<open>ZeroDivisionError\<close> are values.
    The invariant \<open>usage_shape\<close> (one entry per shelf with rows \<open>1..rows\<close>) is
    kept by every step and by the final pass.
  \<^item> \<open>Ingest\<close>: \<open>parse_csv_file\<close>; a file is the list of rows
    \<open>csv.DictReader\<close> yielded and the exception that stopped it, if any.
  \<^item> \<open>Organizer\<close>: \<open>main\<close> up to the report (\<open>read_all_files\<close>,
    \<open>select_books\<close>, \<open>iterative_balance\<close>, composed as \<open>organize\<close>).
  \<^item> \<open>Report\<close>: \<open>generate_html\<close> and \<open>main\<close> as a whole
    (\<open>organizer_main\<close>). The report is the list of its fragments
    (\<open>report_piece\<close>) in emission order: the summary counts, one utilisation banner
    per shelf of \<open>ORGANIZATION\<close> (\<open>space_info\<close>), and per shelf and row a
    header followed by one \<open>BookRow\<close> per book sorted by title
    (\<open>shelf_section\<close>, \<open>row_section\<close>, \<open>sort_by_title\<close>,
    \<open>book_row\<close>), with \<open>html.escape\<close> as \<open>html_escape\<close>.
  \<^item> \<open>Adaptive\<close>: \<open>create_adaptive_categorizer\<close>, its tier chain
    \<open>adaptive_combined\<close> and the nested \<open>find_best_shelf\<close> (its three loops as
    \<open>first_under\<close> and \<open>least_from\<close>), with the utilisation data as a space usage.
  \<^item> \<open>Screenshot\<close>: \<open>capture_screenshot\<close> and \<open>main\<close> of the screenshot script.
    The browser is an environment record (\<open>browser_env\<close>) saying which webdriver call
    raises, what each \<open>document.readyState\<close> poll returns and how many polls fit in the
    10-second deadline; the script's result is the list of browser actions it performed
    with its Python result, \<open>try\<close>/\<open>except\<close>/\<open>finally\<close> written out
    (\<open>try_body\<close>, \<open>handle_except\<close>). The session protocol is the inductive step
    relation \<open>browser_step\<close> on \<open>driver_state\<close>, closed under sequencing by
    \<open>browser_run\<close>.

  \<^bold>\<open>What is proved.\<close> No book is lost or duplicated by the calculator (C1); shelf
  totals add up to the books' widths (C2); the calculator raises exactly for rows without
  \<open>item_type\<close> or books with a \<open>None\<close> title, never for a slot or a division (C3);
  both classifiers only return slots that exist (C4, C5); matching is case-insensitive
  (C6); a dead keyword of \<open>categorize_book\<close> (C7); the width estimate is monotone on
  positive page counts (C8) and a whole number of quarter inches between 1/2 and 2 (C9);
  a CSV file that fails midway keeps the rows read before the failure (C10).
  End to end, \<open>main\<close> produces its report exactly when no book has a \<open>None\<close>
  title or \<open>creators\<close> cell (C11); it places every book once (C12) and lists every
  book once in the report (C13); escaping of report cells is lossless (C14) and leaves no
  markup character (C15); the over-capacity band is a threshold on the row widths (C16).
  The adaptive categorizer never makes the calculator raise for a slot (C17); its
  \<open>find_best_shelf\<close> picks the first preferred slot under 85 per cent (C18), else the
  first fallback under 95 per cent (C19), else row 1 of the first least utilised shelf
  (C20); its tier-3 \<open>algorithms\<close> keyword is dead (C21). The report's printed note on
  widths disagrees with the code exactly at page counts up to 0, 200 and 500 (C22).
  The screenshot script releases the browser on every path (C23); its result is
  characterised, including the ignored return value of \<open>save_screenshot\<close> and the
  exception of \<open>quit\<close> escaping \<open>finally\<close> (C24); a screenshot is taken only after the
  page is ready and the requested sleep (C25); a page that never becomes ready fails the
  operation after polling up to the deadline (C26); exit status 0 implies the screenshot
  was attempted at the requested path and the browser released (C27). The witnesses at
  the end apply each theorem with a hypothesis to concrete inputs evaluated by
  \<open>simp\<close>.

  \<^bold>\<open>Bounds.\<close> Every loop of the organizer runs over a finite list (items, shelves,
  rows), so every definition is structurally recursive and total; no fuel is needed.
  The readiness wait is recursion on the number of polls left before the deadline
  (\<open>env_polls\<close>), so it ends; the sample browser allows 19 polls after the first,
  the 10-second timeout divided by the 0.5-second poll interval.

  \<^bold>\<open>Not modelled.\<close> Console output, file discovery by glob, the CSV dialect itself
  (a file is given as the rows \<open>csv.DictReader\<close> yields), the fixed HTML and CSS
  text and the decimal formatting of floats in the report, the file date of the summary,
  the write of the output file, Unicode case folding beyond ASCII, the binary64 rounding
  of the utilisation quotient (the capacity band is the same for every reachable
  quarter-inch total), the Chrome options and the wall-clock timing of the wait.
\<close>

definition sample_items :: "row list" where
  "sample_items =
    [[(''item_type'', Some ''book''), (''title'', Some ''Genki I''), (''creators'', Some ''Banno''),
      (''tags'', None), (''group'', Some ''''), (''description'', None), (''length'', Some ''250'')],
     [(''item_type'', Some ''music''), (''title'', Some ''Kind of Blue'')],
     [(''item_type'', Some ''book''), (''title'', Some ''Unknown Mystery Novel''),
      (''length'', Some ''x'')]]"

lemmas space_eval = calculate_space_usage_def categorizer_of_def place_item_def add_book_def
  categorize_item_def placed_of_def pages_of_def init_usage_def init_shelf_def add_to_row_def
  finalize_shelf_def row_total_def categorize_book_def combined_text_def categorize_combined_def
  estimate_book_width_def available_width_def SHELF_DIMENSIONS_def is_book_def

definition sample_files :: "csv_source list" where
  "sample_files =
    [\<lparr>src_rows = sample_items @ [[(''item_type'', Some ''boardgame''), (''title'', Some ''Go'')]],
      src_error = Some ValueError\<rparr>,
     \<lparr>src_rows = [], src_error = Some OSError\<rparr>]"

definition hallway_shelf :: shelf_usage where
  \<comment> \<open>the hallway of the specification's example: 40 inches of books on the first row\<close>
  "hallway_shelf =
     \<lparr>su_rows = [(1, \<lparr>ru_width = 40, ru_items = []\<rparr>), (2, \<lparr>ru_width = 0, ru_items = []\<rparr>)],
      su_total_width = 0, su_available_width = 32, su_utilization = 0\<rparr>"

definition escaped_book :: placed_book where
  "escaped_book = \<lparr>pb_title = Some ''Q&A <2>'', pb_author = Some ''Laozi'', pb_pages = 90, pb_width = 1 / 2,
                    pb_item = []\<rparr>"

definition busy_usage :: space_usage where
  \<comment> \<open>office A at 90 per cent and office B at 97 per cent; the other shelves absent (0)\<close>
  "busy_usage =
     [(''office_a'', hallway_shelf\<lparr>su_utilization := 90\<rparr>),
      (''office_b'', hallway_shelf\<lparr>su_utilization := 97\<rparr>)]"

definition slow_page :: browser_env where
  \<comment> \<open>a browser on which the page reports \<open>complete\<close> at the third poll\<close>
  "slow_page =
     \<lparr>env_launch = None, env_get = None,
      env_ready = (\<lambda>i. if i < 2 then Inr ''interactive'' else Inr ''complete''),
      env_polls = 19, env_save = Inr True, env_quit = None\<rparr>"

definition stuck_page :: browser_env where
  \<comment> \<open>a page that never leaves \<open>loading\<close>\<close>
  "stuck_page = slow_page\<lparr>env_ready := (\<lambda>i. Inr ''loading'')\<rparr>"

lemmas organize_eval = organize_def read_all_files_def parse_csv_file_def recognized_def
  recognized_kinds_def iterative_balance_def balanced_categorizer_def
  balanced_categorize_book_def balanced_combined_def

lemma sample_calculates: "\<exists>u. calculate_space_usage sample_items None = Inr u"
  by (simp add: sample_items_def space_eval py_defs upt_rec)

lemma sample_organizes: "\<exists>r. organize sample_files = Inr r"
  by (simp add: sample_files_def sample_items_def organize_eval space_eval py_defs upt_rec)

lemmas report_eval = organizer_main_def generate_html_def count_kind_def space_info_def shelf_section_def
  row_section_def sort_by_title_def book_row_def escape_cell_def utilization_of_def total_width_of_def
  row_of_def row_books_of_def row_width_of_def ORGANIZATION_def Let_def

lemma sample_reports: "\<exists>p. organizer_main sample_files = Inr p"
  by (simp add: report_eval sample_files_def sample_items_def organize_eval space_eval py_defs upt_rec)

lemma escaped_book_row:
  "book_row escaped_book = Inr (BookRow ''Q&amp;A &lt;2&gt;'' ''Laozi'' (pages_text 90) (1 / 2))"
  by (simp add: book_row_def escape_cell_def escaped_book_def html_escape_def html_escape_char_def)

lemma hallway_finalizes:
  "finalize_shelf hallway_shelf = Inr (hallway_shelf\<lparr>su_total_width := 40, su_utilization := 125\<rparr>)"
  by (simp add: finalize_shelf_def hallway_shelf_def row_total_def)

section \<open>Witnesses\<close>

theorem calculate_space_usage_books_witness:
  "\<exists>u. calculate_space_usage sample_items None = Inr u
       \<and> mset (map pb_item (usage_books u)) = mset (filter is_book sample_items)"
proof -
  obtain u where u: "calculate_space_usage sample_items None = Inr u"
    using sample_calculates by blast
  show ?thesis using u calculate_space_usage_books [OF u] by blast
qed

theorem calculate_space_usage_width_witness:
  "\<exists>u. calculate_space_usage sample_items None = Inr u
       \<and> (\<Sum>(s, su)\<leftarrow>u. su_total_width su)
           = (\<Sum>it\<leftarrow>filter is_book sample_items. estimate_book_width (Some (pages_of it)))"
proof -
  obtain u where u: "calculate_space_usage sample_items None = Inr u"
    using sample_calculates by blast
  show ?thesis using u calculate_space_usage_width [OF u] by blast
qed

theorem calculate_space_usage_error_conditions_witness:
  "(\<exists>u. calculate_space_usage sample_items None = Inr u)
   \<and> list_all (\<lambda>it. map_of it ''item_type'' \<noteq> None
                   \<and> (is_book it \<longrightarrow> map_of it ''title'' \<noteq> Some None)) sample_items"
  using calculate_space_usage_error_conditions [of sample_items] sample_calculates by simp

theorem categorize_book_valid_slot_witness:
  "categorize_book (Some ''Genki I'') None None None = Inr (''office_a'', 1)
   \<and> valid_slot (''office_a'', 1)"
proof -
  have c: "categorize_book (Some ''Genki I'') None None None = Inr (''office_a'', 1)"
    by (simp add: categorize_book_def combined_text_def categorize_combined_def py_defs)
  show ?thesis using c categorize_book_valid_slot [OF c] by simp
qed

theorem balanced_categorize_book_valid_slot_witness:
  "balanced_categorize_book (Some ''Unknown Mystery Novel'') None None None = Inr (''hallway'', 1)
   \<and> valid_slot (''hallway'', 1)"
proof -
  have c: "balanced_categorize_book (Some ''Unknown Mystery Novel'') None None None
           = Inr (''hallway'', 1)"
    by (simp add: balanced_categorize_book_def combined_text_def balanced_combined_def py_defs)
  show ?thesis using c balanced_categorize_book_valid_slot [OF c] by simp
qed

theorem categorize_book_dover_not_crate_v_witness:
  "combined_text (Some ''Dover Logic Puzzles'') None None None = Inr ''dover logic puzzles   ''
   \<and> py_contains ''dover'' ''dover logic puzzles   ''
   \<and> categorize_book (Some ''Dover Logic Puzzles'') None None None \<noteq> Inr (''crate_v'', 1)"
proof -
  have c: "combined_text (Some ''Dover Logic Puzzles'') None None None = Inr ''dover logic puzzles   ''"
    by (simp add: combined_text_def py_defs)
  have d: "py_contains ''dover'' ''dover logic puzzles   ''" by simp
  show ?thesis using c d categorize_book_dover_not_crate_v [OF c d] by simp
qed

theorem estimate_book_width_mono_witness:
  "0 < (99::int) \<and> (99::int) \<le> 101
   \<and> estimate_book_width (Some 99) \<le> estimate_book_width (Some 101)"
  using estimate_book_width_mono [of 99 101] by simp

theorem organize_places_every_book_witness:
  "\<exists>all_items u. organize sample_files = Inr (all_items, u)
     \<and> all_items = read_all_files sample_files
     \<and> mset (map pb_item (usage_books u)) = mset (filter is_book all_items)"
proof -
  obtain all_items u where r: "organize sample_files = Inr (all_items, u)"
    using sample_organizes by auto
  show ?thesis using r organize_places_every_book [OF r] by blast
qed


theorem organizer_main_error_conditions_witness:
  "(\<exists>pieces. organizer_main sample_files = Inr pieces)
   \<and> list_all (\<lambda>it. is_book it \<longrightarrow> map_of it ''title'' \<noteq> Some None \<and> map_of it ''creators'' \<noteq> Some None)
       (read_all_files sample_files)"
  using organizer_main_error_conditions [of sample_files] sample_reports by simp

theorem organizer_main_lists_every_book_witness:
  "\<exists>pieces rows. organizer_main sample_files = Inr pieces
     \<and> smap book_row (map placed_of (filter is_book (read_all_files sample_files))) = Inr rows
     \<and> mset (filter is_book_row pieces) = mset rows"
proof -
  obtain pieces where p: "organizer_main sample_files = Inr pieces" using sample_reports by blast
  show ?thesis using p organizer_main_lists_every_book [OF p] by blast
qed

theorem finalize_shelf_over_capacity_witness:
  "finalize_shelf hallway_shelf = Inr (hallway_shelf\<lparr>su_total_width := 40, su_utilization := 125\<rparr>)
   \<and> capacity_status 125 = Over_capacity
   \<and> 9 * of_nat (su_available_width hallway_shelf) < 10 * row_total hallway_shelf"
  using finalize_shelf_over_capacity [OF hallway_finalizes] hallway_finalizes
  by (simp add: hallway_shelf_def row_total_def capacity_status_def)

theorem book_row_roundtrip_witness:
  "book_row escaped_book = Inr (BookRow ''Q&amp;A &lt;2&gt;'' ''Laozi'' (pages_text 90) (1 / 2))
   \<and> pb_title escaped_book = Some (entity_decode ''Q&amp;A &lt;2&gt;'')
   \<and> pb_author escaped_book = Some (entity_decode ''Laozi'')"
  using book_row_roundtrip [OF escaped_book_row] escaped_book_row by blast

theorem book_row_safe_witness:
  "book_row escaped_book = Inr (BookRow ''Q&amp;A &lt;2&gt;'' ''Laozi'' (pages_text 90) (1 / 2))
   \<and> set ''Q&amp;A &lt;2&gt;'' \<inter> {CHR ''<'', CHR ''>'', CHR 0x22, CHR 0x27} = {}
   \<and> set ''Laozi'' \<inter> {CHR ''<'', CHR ''>'', CHR 0x22, CHR 0x27} = {}"
  using book_row_safe [OF escaped_book_row] escaped_book_row by blast

theorem adaptive_calculate_error_conditions_witness:
  "(\<exists>u'. calculate_space_usage sample_items (Some (create_adaptive_categorizer busy_usage 1)) = Inr u')
   \<and> list_all (\<lambda>it. map_of it ''item_type'' \<noteq> None \<and> (is_book it \<longrightarrow> map_of it ''title'' \<noteq> Some None))
       sample_items"
  using adaptive_calculate_error_conditions [of sample_items busy_usage 1]
  by (simp add: sample_items_def is_book_def py_defs)

theorem find_best_shelf_preferred_witness:
  "list_all (\<lambda>sl. 85 \<le> util_of busy_usage (fst sl)) [(''office_a'', 1)]
   \<and> util_of busy_usage ''dining'' < 85
   \<and> find_best_shelf busy_usage [(''office_a'', 1), (''dining'', 1)] [] = (''dining'', 1)"
  using find_best_shelf_preferred [of busy_usage "[(''office_a'', 1)]" "(''dining'', 1)" "[]" "[]"]
  by (simp add: util_of_def busy_usage_def)

theorem find_best_shelf_fallback_witness:
  "list_all (\<lambda>sl. 85 \<le> util_of busy_usage (fst sl)) [(''office_a'', 1)]
   \<and> list_all (\<lambda>sl. 95 \<le> util_of busy_usage (fst sl)) [(''office_b'', 3)]
   \<and> util_of busy_usage ''crate_h'' < 95
   \<and> find_best_shelf busy_usage [(''office_a'', 1)] [(''office_b'', 3), (''crate_h'', 1)] = (''crate_h'', 1)"
  using find_best_shelf_fallback [of busy_usage "[(''office_a'', 1)]" "[(''office_b'', 3)]" "(''crate_h'', 1)" "[]"]
  by (simp add: util_of_def busy_usage_def)

theorem find_best_shelf_least_witness:
  "list_all (\<lambda>sl. 85 \<le> util_of busy_usage (fst sl)) [(''office_a'', 1)]
   \<and> list_all (\<lambda>sl. 95 \<le> util_of busy_usage (fst sl)) [(''office_b'', 1)]
   \<and> (\<exists>pre s post. map fst SHELF_DIMENSIONS = pre @ s # post
        \<and> find_best_shelf busy_usage [(''office_a'', 1)] [(''office_b'', 1)] = (s, 1)
        \<and> list_all (\<lambda>x. util_of busy_usage s < util_of busy_usage x) pre
        \<and> list_all (\<lambda>x. util_of busy_usage s \<le> util_of busy_usage x) post)"
proof -
  have h: "list_all (\<lambda>sl. 85 \<le> util_of busy_usage (fst sl)) [(''office_a'', 1)]"
    "list_all (\<lambda>sl. 95 \<le> util_of busy_usage (fst sl)) [(''office_b'', 1)]"
    by (simp_all add: util_of_def busy_usage_def)
  show ?thesis using h find_best_shelf_least [OF h] by blast
qed

theorem adaptive_algorithms_tier1_witness:
  "py_contains ''algorithms'' ''introduction to algorithms''
   \<and> adaptive_combined busy_usage ''introduction to algorithms''
       = find_best_shelf busy_usage [(''office_a'', 1), (''office_a'', 2)] [(''office_b'', 1)]
   \<and> find_best_shelf busy_usage [(''office_a'', 1), (''office_a'', 2)] [(''office_b'', 1)] = (''dining'', 1)"
proof -
  have c: "py_contains ''algorithms'' ''introduction to algorithms''" by simp
  have "find_best_shelf busy_usage [(''office_a'', 1), (''office_a'', 2)] [(''office_b'', 1)] = (''dining'', 1)"
    by (simp add: find_best_shelf_def util_of_def busy_usage_def below_def shelf_config)
  with c adaptive_algorithms_tier1 [OF c, of busy_usage] show ?thesis by simp
qed


theorem estimate_book_width_note_disagreement_witness:
  "estimate_book_width (Some 200) = 3 / 4
   \<and> ((200::int) < 100 \<and> estimate_book_width (Some 200) \<noteq> 1 / 2
       \<or> 200 \<le> (200::int) \<and> (200::int) \<le> 300 \<and> estimate_book_width (Some 200) \<noteq> 1
       \<or> 500 \<le> (200::int) \<and> (200::int) \<le> 750 \<and> estimate_book_width (Some 200) \<noteq> 3 / 2)"
  using estimate_book_width_note_disagreement [of 200] by (simp add: estimate_book_width_def)


theorem capture_screenshot_saves_after_ready_witness:
  "SaveShot ''shot.png'' \<in> set (fst (capture_screenshot slow_page ''http://localhost:8080'' ''shot.png'' 5 ''Home''))
   \<and> fst (capture_screenshot slow_page ''http://localhost:8080'' ''shot.png'' 5 ''Home'')
       = [Launch, Navigate ''http://localhost:8080'', PollReady, PollReady, PollReady, Sleep 5,
          SaveShot ''shot.png'', Quit]"
proof -
  have t: "fst (capture_screenshot slow_page ''http://localhost:8080'' ''shot.png'' 5 ''Home'')
       = [Launch, Navigate ''http://localhost:8080'', PollReady, PollReady, PollReady, Sleep 5,
          SaveShot ''shot.png'', Quit]"
    by (simp add: capture_screenshot_def try_body_def slow_page_def numeral_eq_Suc)
  then have s: "SaveShot ''shot.png'' \<in> set (fst (capture_screenshot slow_page ''http://localhost:8080'' ''shot.png'' 5 ''Home''))"
    by simp
  show ?thesis using capture_screenshot_saves_after_ready [OF s] t s by blast
qed

theorem capture_screenshot_timeout_witness:
  "env_launch stuck_page = None \<and> env_get stuck_page = None \<and> env_quit stuck_page = None
   \<and> env_ready stuck_page = (\<lambda>i. Inr ''loading'') \<and> env_polls stuck_page = 19
   \<and> capture_screenshot stuck_page ''http://localhost:8080'' ''shot.png'' 5 ''Home''
       = (Launch # Navigate ''http://localhost:8080'' # replicate 20 PollReady @ [Quit], Inr False)"
proof -
  have h: "env_launch stuck_page = None" "env_get stuck_page = None" "env_quit stuck_page = None"
    "\<forall>j \<le> env_polls stuck_page. \<exists>st. env_ready stuck_page j = Inr st \<and> st \<noteq> ''complete''"
    by (simp_all add: stuck_page_def slow_page_def)
  show ?thesis using h capture_screenshot_timeout [OF h, of "''http://localhost:8080''" "''shot.png''" 5 "''Home''"]
    by (simp add: stuck_page_def slow_page_def)
qed

theorem screenshot_main_exit_zero_witness:
  "process_status (snd (screenshot_main slow_page [''selenium-screenshot.py'', ''http://localhost:8080'', ''shot.png'', ''5''])) = 0
   \<and> SaveShot ''shot.png'' \<in> set (fst (screenshot_main slow_page [''selenium-screenshot.py'', ''http://localhost:8080'', ''shot.png'', ''5'']))"
proof -
  have z: "process_status (snd (screenshot_main slow_page [''selenium-screenshot.py'', ''http://localhost:8080'', ''shot.png'', ''5''])) = 0"
    by (simp add: screenshot_main_def wait_arg_def process_status_def capture_screenshot_def try_body_def
        handle_except_def slow_page_def numeral_eq_Suc py_defs)
  show ?thesis using z screenshot_main_exit_zero [OF z] by simp
qed

end
